theory Spec2Isabelle
  imports Main "HOL-Library.Word" "HOL-Library.Multiset" "HOL-Library.AList"
begin

unbundle bit_operations_syntax

section \<open>Data model\<close>

text \<open>
  \<^verbatim>\<open>endpoint.Endpoint\<close> of external-dns, with the fields the provider reads or copies.
  \<^verbatim>\<open>RecordType\<close> and the action of a change are Go strings.
\<close>

record ProviderSpecificProperty =
  Name :: string
  Value :: string

record Endpoint =
  DNSName :: string
  Targets :: "string list"
  RecordType :: string
  SetIdentifier :: string
  RecordTTL :: int
  Labels :: "(string \<times> string) list"
  ProviderSpecific :: "ProviderSpecificProperty list"

definition RecordTypeA :: string where "RecordTypeA = ''A''"
definition RecordTypePTR :: string where "RecordTypePTR = ''PTR''"

definition providerSpecificInfobloxPtrRecord :: string where
  "providerSpecificInfobloxPtrRecord = ''infoblox-ptr-record-exists''"
definition infobloxCreate :: string where "infobloxCreate = ''CREATE''"
definition infobloxDelete :: string where "infobloxDelete = ''DELETE''"
definition infobloxUpdate :: string where "infobloxUpdate = ''UPDATE''"

text \<open>\<^verbatim>\<open>ibclient.ZoneAuth\<close>: the provider reads only the zone's \<^verbatim>\<open>Fqdn\<close>.\<close>

record ZoneAuth =
  Fqdn :: string

record infobloxChange =
  Action :: string
  Endpoint :: Endpoint

text \<open>The fields of \<^verbatim>\<open>StartupConfig\<close> that the modelled functions read.\<close>

record StartupConfig =
  View :: string
  CreatePTR :: bool
  DefaultTTL :: int
  ExtAttrsJSON :: string

text \<open>
  Go's \<^verbatim>\<open>error\<close> interface: nil, \<^verbatim>\<open>*ibclient.NotFoundError\<close>, any other error value,
  and an error wrapped by \<^verbatim>\<open>fmt.Errorf("...: %w", err)\<close>. \<^verbatim>\<open>isNotFoundError\<close> is the
  type assertion \<^verbatim>\<open>err.(*ibclient.NotFoundError)\<close>, which neither nil nor a wrapped
  error passes.
\<close>

datatype error = nil | NotFoundError string | OtherError string | Wrapped string error

fun isNotFoundError :: "error \<Rightarrow> bool" where
  "isNotFoundError (NotFoundError _) = True"
| "isNotFoundError _ = False"

text \<open>
  The backend connector \<^verbatim>\<open>p.client\<close>, as the provider uses it through
  \<^verbatim>\<open>PagingGetObject\<close>: a call returns an error (or nil) together with the contents
  of the result buffer it was given, which the caller declared empty just before the
  call. \<open>getZones\<close> is the query for \<^verbatim>\<open>ZoneAuth\<close> objects with the search fields
  of \<^verbatim>\<open>zones\<close>; \<open>getRecords\<close> is the query for the records of one type in a zone
  and view with the given extensible attributes. \<^verbatim>\<open>PagingGetObject\<close> and the
  conversions \<^verbatim>\<open>To...ResponseMap(res).ToEndpoints()\<close> are not among the sources, so
  the connector is a parameter, and the buffer of \<open>getRecords\<close> holds the records
  already converted to endpoints.
\<close>

datatype objType = RecordA | HostRecord | RecordCNAME | RecordTXT | RecordPTR

type_synonym extAttrs = "(string \<times> string) list"

record IBConnector =
  getZones :: "(string \<times> string) list \<Rightarrow> error \<times> ZoneAuth list"
  getRecords :: "objType \<Rightarrow> extAttrs \<Rightarrow> string \<Rightarrow> string \<Rightarrow> error \<times> Endpoint list"

record Provider =
  client :: IBConnector
  domainFilter :: "string \<Rightarrow> bool"
  config :: StartupConfig

section \<open>The parts of Go's standard library the provider calls\<close>

text \<open>
  \<^verbatim>\<open>strings.HasSuffix(s, suffix)\<close> is
  \<^verbatim>\<open>len(s) >= len(suffix) && s[len(s)-len(suffix):] == suffix\<close>.
\<close>

definition HasSuffix :: "string \<Rightarrow> string \<Rightarrow> bool" where
  "HasSuffix s suffix \<longleftrightarrow>
     length suffix \<le> length s \<and> drop (length s - length suffix) s = suffix"

text \<open>
  \<^verbatim>\<open>net.IP\<close> and \<^verbatim>\<open>net.IPMask\<close> are byte slices (the nil slice is the empty list),
  \<^verbatim>\<open>net.IPNet\<close> is a network number with its mask.
\<close>

type_synonym byte = "8 word"
type_synonym IP = "byte list"
type_synonym IPMask = "byte list"

record IPNet =
  IP :: IP
  Mask :: IPMask

definition IPv4len :: nat where "IPv4len = 4"
definition IPv6len :: nat where "IPv6len = 16"

text \<open>
  \<^verbatim>\<open>IP.To4\<close>: a 4-byte address is returned as it is, a 16-byte IPv4-mapped address
  (ten zero bytes, then 0xff 0xff) gives its last four bytes, anything else nil.
\<close>

definition To4 :: "IP \<Rightarrow> IP" where
  "To4 ip =
     (if length ip = IPv4len then ip
      else if length ip = IPv6len \<and> take 10 ip = replicate 10 0
              \<and> ip ! 10 = 0xff \<and> ip ! 11 = 0xff
      then drop 12 ip
      else [])"

text \<open>
  \<^verbatim>\<open>networkNumberAndMask\<close>: the network number (in 4-byte form when it is an IPv4
  address) and a mask of the same length; \<^verbatim>\<open>(nil, nil)\<close> for an ill-formed network.
\<close>

definition networkNumberAndMask :: "IPNet \<Rightarrow> IP \<times> IPMask" where
  "networkNumberAndMask n =
     (let ip4 = To4 (IP n);
          ip = (if ip4 = [] then IP n else ip4)
      in if ip4 = [] \<and> length ip \<noteq> IPv6len then ([], [])
         else if length (Mask n) = IPv4len then
           (if length ip \<noteq> IPv4len then ([], []) else (ip, Mask n))
         else if length (Mask n) = IPv6len then
           (if length ip = IPv4len then (ip, drop 12 (Mask n)) else (ip, Mask n))
         else ([], []))"

text \<open>
  \<^verbatim>\<open>IPNet.Contains\<close>: the address, in 4-byte form when it has one, must have the
  length of the network number and agree with it on every masked byte.
\<close>

definition Contains :: "IPNet \<Rightarrow> IP \<Rightarrow> bool" where
  "Contains n ip0 =
     (let (nn, m) = networkNumberAndMask n;
          x = To4 ip0;
          ip = (if x \<noteq> [] then x else ip0);
          l = length ip
      in if l \<noteq> length nn then False
         else list_all (\<lambda>i. (nn ! i) AND (m ! i) = (ip ! i) AND (m ! i)) [0..<l])"

text \<open>
  \<^verbatim>\<open>IPMask.Size\<close> returns \<^verbatim>\<open>(ones, bits)\<close>: the number of leading one bits and the
  total number of bits of the mask, \<^verbatim>\<open>(0, 0)\<close> when the mask is not ones followed by
  zeros. \<^verbatim>\<open>leadingOnes\<close> counts the leading one bits of a byte, as the inner loop of
  \<^verbatim>\<open>simpleMaskLength\<close> does.
\<close>

fun leadingOnes :: "byte \<Rightarrow> nat \<Rightarrow> nat" where
  "leadingOnes v 0 = 0"
| "leadingOnes v (Suc k) =
     (if v AND 0x80 \<noteq> 0 then Suc (leadingOnes (push_bit 1 v) k) else 0)"

fun simpleMaskLength :: "IPMask \<Rightarrow> int" where
  "simpleMaskLength [] = 0"
| "simpleMaskLength (v # vs) =
     (if v = 0xff then
        (let n = simpleMaskLength vs in if n = -1 then -1 else 8 + n)
      else
        (let k = leadingOnes v 8 in
         if push_bit k v \<noteq> 0 then -1
         else if \<exists>b \<in> set vs. b \<noteq> 0 then -1
         else int k))"

definition Size :: "IPMask \<Rightarrow> int \<times> int" where
  "Size m =
     (let ones = simpleMaskLength m; bits = int (length m) * 8
      in if ones = -1 then (0, 0) else (ones, bits))"

text \<open>
  The string parsers \<^verbatim>\<open>net.ParseIP\<close> and \<^verbatim>\<open>net.ParseCIDR\<close> and the Unicode
  comparison \<^verbatim>\<open>strings.EqualFold\<close> are taken as parameters: \<^verbatim>\<open>ParseIP\<close> gives nil
  (the empty list) for a string that is no IP literal, \<^verbatim>\<open>ParseCIDR\<close> gives the network
  of the CIDR string or an error (\<open>None\<close>).
\<close>

record golib =
  EqualFold :: "string \<Rightarrow> string \<Rightarrow> bool"
  ParseIP :: "string \<Rightarrow> IP"
  ParseCIDR :: "string \<Rightarrow> IPNet option"

subsection \<open>An instance for ASCII names and dotted-decimal IPv4 text\<close>

text \<open>
  The concrete inputs below are ASCII names and IPv4 addresses in dotted-decimal form.
  On these the following definitions compute what Go's functions compute: case folding
  of the letters A to Z, four decimal fields between 0 and 255 without leading zeros,
  and a decimal prefix length between 0 and 32 after the slash.
\<close>

definition toLowerASCII :: "char \<Rightarrow> char" where
  "toLowerASCII c =
     (let n = (of_char c :: nat) in if 65 \<le> n \<and> n \<le> 90 then char_of (n + 32) else c)"

definition EqualFoldASCII :: "string \<Rightarrow> string \<Rightarrow> bool" where
  "EqualFoldASCII s t \<longleftrightarrow> map toLowerASCII s = map toLowerASCII t"

definition isDigit :: "char \<Rightarrow> bool" where
  "isDigit c \<longleftrightarrow> 48 \<le> (of_char c :: nat) \<and> (of_char c :: nat) \<le> 57"

definition digitVal :: "char \<Rightarrow> nat" where
  "digitVal c = (of_char c :: nat) - 48"

text \<open>Splitting at a separator, as \<^verbatim>\<open>strings.Split\<close> does for a one-byte separator.\<close>

fun splitAt :: "char \<Rightarrow> string \<Rightarrow> string \<Rightarrow> string list" where
  "splitAt sep [] cur = [rev cur]"
| "splitAt sep (c # cs) cur =
     (if c = sep then rev cur # splitAt sep cs [] else splitAt sep cs (c # cur))"

definition decimal :: "string \<Rightarrow> nat option" where
  "decimal s =
     (if s \<noteq> [] \<and> list_all isDigit s
      then Some (foldl (\<lambda>n c. n * 10 + digitVal c) 0 s) else None)"

definition parseOctet :: "string \<Rightarrow> byte option" where
  "parseOctet s =
     (case decimal s of
        None \<Rightarrow> None
      | Some n \<Rightarrow>
          if length s \<le> 3 \<and> (length s = 1 \<or> hd s \<noteq> CHR ''0'') \<and> n \<le> 255
          then Some (of_nat n) else None)"

definition parseIPv4 :: "string \<Rightarrow> byte list option" where
  "parseIPv4 s =
     (case map parseOctet (splitAt CHR ''.'' s []) of
        [Some a, Some b, Some c, Some d] \<Rightarrow> Some [a, b, c, d]
      | _ \<Rightarrow> None)"

definition v4InV6Prefix :: "byte list" where
  "v4InV6Prefix = replicate 10 0 @ [0xff, 0xff]"

definition ParseIPv4Text :: "string \<Rightarrow> IP" where
  "ParseIPv4Text s = (case parseIPv4 s of None \<Rightarrow> [] | Some a \<Rightarrow> v4InV6Prefix @ a)"

text \<open>\<^verbatim>\<open>net.CIDRMask(ones, 32)\<close>: \<open>ones\<close> one bits followed by zeros, in four bytes.\<close>

fun CIDRMask4 :: "nat \<Rightarrow> nat \<Rightarrow> byte list" where
  "CIDRMask4 ones 0 = []"
| "CIDRMask4 ones (Suc l) =
     (if 8 \<le> ones then 0xff # CIDRMask4 (ones - 8) l
      else (NOT (drop_bit ones (0xff :: byte))) # CIDRMask4 0 l)"

definition ParseCIDRv4Text :: "string \<Rightarrow> IPNet option" where
  "ParseCIDRv4Text s =
     (case splitAt CHR ''/'' s [] of
        addr # rest \<Rightarrow>
          (if rest = [] then None
           else
             (let bits = drop (Suc (length addr)) s in
              case (parseIPv4 addr, decimal bits) of
                (Some a, Some n) \<Rightarrow>
                  if n \<le> 32
                  then Some \<lparr>IP = map2 (AND) a (CIDRMask4 n 4), Mask = CIDRMask4 n 4\<rparr>
                  else None
              | _ \<Rightarrow> None))
      | [] \<Rightarrow> None)"

definition goASCIIv4 :: golib where
  "goASCIIv4 = \<lparr>EqualFold = EqualFoldASCII, ParseIP = ParseIPv4Text, ParseCIDR = ParseCIDRv4Text\<rparr>"

section \<open>Zone router\<close>

text \<open>
  \<^verbatim>\<open>findZone\<close>: the loop keeps in \<open>result\<close> the first zone of greatest name length among
  those that match by suffix or by case-insensitive equality.
\<close>

definition longer :: "ZoneAuth \<Rightarrow> ZoneAuth option \<Rightarrow> ZoneAuth option" where
  "longer zone result =
     (case result of
        None \<Rightarrow> Some zone
      | Some r \<Rightarrow> if length (Fqdn zone) > length (Fqdn r) then Some zone else Some r)"

fun findZone_loop :: "golib \<Rightarrow> string \<Rightarrow> ZoneAuth list \<Rightarrow> ZoneAuth option \<Rightarrow> ZoneAuth option" where
  "findZone_loop L name [] result = result"
| "findZone_loop L name (zone # zones) result =
     findZone_loop L name zones
       (if HasSuffix name (''.'' @ Fqdn zone) then longer zone result
        else if EqualFold L name (Fqdn zone) then longer zone result
        else result)"

definition findZone :: "golib \<Rightarrow> ZoneAuth list \<Rightarrow> string \<Rightarrow> ZoneAuth option" where
  "findZone L zones name = findZone_loop L name zones None"

text \<open>
  \<^verbatim>\<open>findReverseZone\<close>: \<open>networks\<close> is the Go map from \<open>mask\<close> to zone, \<open>maxMask\<close> the
  greatest \<open>mask\<close> seen. The source binds \<open>mask\<close> with
  \<^verbatim>\<open>_, mask := rZoneNet.Mask.Size()\<close>, the second result of \<^verbatim>\<open>Size\<close>.
\<close>

fun findReverseZone_loop ::
  "golib \<Rightarrow> IP \<Rightarrow> ZoneAuth list \<Rightarrow> (int \<rightharpoonup> ZoneAuth) \<Rightarrow> int \<Rightarrow> (int \<rightharpoonup> ZoneAuth) \<times> int" where
  "findReverseZone_loop L ip [] networks maxMask = (networks, maxMask)"
| "findReverseZone_loop L ip (zone # zones) networks maxMask =
     (case ParseCIDR L (Fqdn zone) of
        None \<Rightarrow> findReverseZone_loop L ip zones networks maxMask
      | Some rZoneNet \<Rightarrow>
          if Contains rZoneNet ip then
            (let mask = snd (Size (Mask rZoneNet))
             in findReverseZone_loop L ip zones (networks(mask \<mapsto> zone))
                  (if mask > maxMask then mask else maxMask))
          else findReverseZone_loop L ip zones networks maxMask)"

definition findReverseZone :: "golib \<Rightarrow> ZoneAuth list \<Rightarrow> string \<Rightarrow> ZoneAuth option" where
  "findReverseZone L zones name =
     (let ip = ParseIP L name;
          (networks, maxMask) = findReverseZone_loop L ip zones Map.empty 0
      in networks maxMask)"

section \<open>Change batcher\<close>

text \<open>
  \<^verbatim>\<open>ChangesByZone\<close> builds a Go map from zone name to change list;
  \<open>ChangesByZone_body\<close> is the body of its second loop, where \<^verbatim>\<open>continue\<close> leaves
  the map as it is. Indexing
  \<^verbatim>\<open>c.Endpoint.Targets[0]\<close> on an empty target list panics. The PTR change holds a
  copy of the endpoint in which only \<^verbatim>\<open>RecordType\<close> is assigned.
\<close>

datatype panic = IndexOutOfRange

type_synonym changeMap = "string \<rightharpoonup> infobloxChange list"

definition seedZones :: "ZoneAuth list \<Rightarrow> changeMap" where
  "seedZones zones = fold (\<lambda>z changes. changes(Fqdn z \<mapsto> [])) zones Map.empty"

text \<open>\<^verbatim>\<open>changes[k] = append(changes[k], c)\<close>; a missing key reads as the nil slice.\<close>

definition appendChange :: "changeMap \<Rightarrow> string \<Rightarrow> infobloxChange \<Rightarrow> changeMap" where
  "appendChange changes k c =
     changes(k \<mapsto> (case changes k of None \<Rightarrow> [] | Some cs \<Rightarrow> cs) @ [c])"

definition ChangesByZone_body ::
  "golib \<Rightarrow> Provider \<Rightarrow> ZoneAuth list \<Rightarrow> infobloxChange \<Rightarrow> changeMap \<Rightarrow> panic + changeMap" where
  "ChangesByZone_body L p zones c changes =
     (case findZone L zones (DNSName (Endpoint c)) of
        None \<Rightarrow> Inr changes
      | Some zone \<Rightarrow>
          if Fqdn zone = [] then Inr changes
          else
            (let changes1 = appendChange changes (Fqdn zone) c in
             if CreatePTR (config p) \<and> RecordType (Endpoint c) = RecordTypeA then
               (case Targets (Endpoint c) of
                  [] \<Rightarrow> Inl IndexOutOfRange
                | target # _ \<Rightarrow>
                    (case findReverseZone L zones target of
                       None \<Rightarrow> Inr changes1
                     | Some reverseZone \<Rightarrow>
                         (let copyEp = (Endpoint c)\<lparr>RecordType := RecordTypePTR\<rparr> in
                          Inr (appendChange changes1 (Fqdn reverseZone)
                                 \<lparr>Action = Action c, Endpoint = copyEp\<rparr>))))
             else Inr changes1))"

fun ChangesByZone_loop ::
  "golib \<Rightarrow> Provider \<Rightarrow> ZoneAuth list \<Rightarrow> infobloxChange list \<Rightarrow> changeMap \<Rightarrow> panic + changeMap" where
  "ChangesByZone_loop L p zones [] changes = Inr changes"
| "ChangesByZone_loop L p zones (c # changeSets) changes =
     (case ChangesByZone_body L p zones c changes of
        Inl e \<Rightarrow> Inl e
      | Inr changes' \<Rightarrow> ChangesByZone_loop L p zones changeSets changes')"

definition ChangesByZone ::
  "golib \<Rightarrow> Provider \<Rightarrow> ZoneAuth list \<Rightarrow> infobloxChange list \<Rightarrow> panic + changeMap" where
  "ChangesByZone L p zones changeSets = ChangesByZone_loop L p zones changeSets (seedZones zones)"

text \<open>The change list that a result of \<^verbatim>\<open>ChangesByZone\<close> holds for a zone name.\<close>

definition zoneChanges :: "panic + changeMap \<Rightarrow> string \<Rightarrow> infobloxChange list option" where
  "zoneChanges r k = (case r of Inl _ \<Rightarrow> None | Inr changes \<Rightarrow> changes k)"

subsection \<open>Concrete inputs\<close>

definition noConnector :: IBConnector where
  "noConnector = \<lparr>getZones = (\<lambda>_. (nil, [])), getRecords = (\<lambda>_ _ _ _. (nil, []))\<rparr>"

definition matchAll :: "string \<Rightarrow> bool" where
  "matchAll s = True"

definition providerPTR :: Provider where
  "providerPTR =
     \<lparr>client = noConnector, domainFilter = matchAll,
      config = \<lparr>View = ''default'', CreatePTR = True, DefaultTTL = 300, ExtAttrsJSON = ''{}''\<rparr>\<rparr>"

definition endpointA :: "string \<Rightarrow> string list \<Rightarrow> Endpoint" where
  "endpointA name targets =
     \<lparr>DNSName = name, Targets = targets, RecordType = RecordTypeA, SetIdentifier = [],
      RecordTTL = 300, Labels = [], ProviderSpecific = []\<rparr>"

section \<open>Reading the records: zones, Records and AdjustEndpoints\<close>

text \<open>
  \<^verbatim>\<open>json.Unmarshal\<close> into a map and \<^verbatim>\<open>rfc2317.CidrToInAddr\<close> are taken as
  parameters; both return a value or an error.
\<close>

record extlib =
  Unmarshal :: "string \<Rightarrow> error + extAttrs"
  CidrToInAddr :: "string \<Rightarrow> error + string"

definition deserializeEAs :: "extlib \<Rightarrow> string \<Rightarrow> error + extAttrs" where
  "deserializeEAs X extAttrJSON =
     (if extAttrJSON = [] then Inr []
      else case Unmarshal X extAttrJSON of
             Inl err \<Rightarrow> Inl (Wrapped ''cannot process ext_attrs field'' err)
           | Inr extAttrs \<Rightarrow> Inr extAttrs)"

definition zonesSearchFields :: "Provider \<Rightarrow> (string \<times> string) list" where
  "zonesSearchFields p = (if View (config p) \<noteq> [] then [(''view'', View (config p))] else [])"

definition zones :: "Provider \<Rightarrow> error + ZoneAuth list" where
  "zones p =
     (let (err, res) = getZones (client p) (zonesSearchFields p)
      in if err \<noteq> nil \<and> \<not> isNotFoundError err then Inl err
         else Inr (filter (\<lambda>zone. domainFilter p (Fqdn zone)) res))"

text \<open>
  The body of the loop over the zones in \<^verbatim>\<open>Records\<close>: the fetches of the A, host,
  CNAME and TXT records of the zone and, with \<^verbatim>\<open>CreatePTR\<close>, of the PTR records of
  its in-addr zone, each appended to \<open>endpoints\<close>.
\<close>

definition Records_body ::
  "extlib \<Rightarrow> Provider \<Rightarrow> extAttrs \<Rightarrow> ZoneAuth \<Rightarrow> Endpoint list \<Rightarrow> error + Endpoint list" where
  "Records_body X p extAttrs zone endpoints =
     (let view = View (config p);
          (err, resA) = getRecords (client p) RecordA extAttrs (Fqdn zone) view
      in if err \<noteq> nil \<and> \<not> isNotFoundError err
         then Inl (Wrapped ''could not fetch A records from zone'' err)
         else
     (let endpoints = endpoints @ resA;
          (err, resH) = getRecords (client p) HostRecord extAttrs (Fqdn zone) view
      in if err \<noteq> nil \<and> \<not> isNotFoundError err
         then Inl (Wrapped ''could not fetch host records from zone'' err)
         else
     (let endpoints = endpoints @ resH;
          (err, resC) = getRecords (client p) RecordCNAME extAttrs (Fqdn zone) view
      in if err \<noteq> nil \<and> \<not> isNotFoundError err
         then Inl (Wrapped ''could not fetch CNAME records from zone'' err)
         else
     (let endpoints = endpoints @ resC;
          (err, resT) = getRecords (client p) RecordTXT extAttrs (Fqdn zone) view
      in if err \<noteq> nil \<and> \<not> isNotFoundError err
         then Inl (Wrapped ''could not fetch TXT records from zone'' err)
         else
     (let endpoints = endpoints @ resT
      in if CreatePTR (config p) then
           (case CidrToInAddr X (Fqdn zone) of
              Inr arpaZone \<Rightarrow>
                (let (err, resP) = getRecords (client p) RecordPTR extAttrs arpaZone view
                 in if err \<noteq> nil \<and> \<not> isNotFoundError err
                    then Inl (Wrapped ''could not fetch PTR records from zone'' err)
                    else Inr (endpoints @ resP))
            | Inl _ \<Rightarrow> Inr endpoints)
         else Inr endpoints)))))"

fun Records_loop ::
  "extlib \<Rightarrow> Provider \<Rightarrow> extAttrs \<Rightarrow> ZoneAuth list \<Rightarrow> Endpoint list \<Rightarrow> error + Endpoint list" where
  "Records_loop X p extAttrs [] endpoints = Inr endpoints"
| "Records_loop X p extAttrs (zone # zs) endpoints =
     (case Records_body X p extAttrs zone endpoints of
        Inl err \<Rightarrow> Inl err
      | Inr endpoints' \<Rightarrow> Records_loop X p extAttrs zs endpoints')"

text \<open>
  Setting the PTR marker of one endpoint, the block that \<^verbatim>\<open>Records\<close> and
  \<^verbatim>\<open>AdjustEndpoints\<close> share: every property with the marker's name gets the value
  \<^verbatim>\<open>"true"\<close>, and only when there is none \<^verbatim>\<open>WithProviderSpecific\<close> is called, which
  then appends the property.
\<close>

definition WithProviderSpecific :: "Endpoint \<Rightarrow> string \<Rightarrow> string \<Rightarrow> Endpoint" where
  "WithProviderSpecific e k v =
     e\<lparr>ProviderSpecific := ProviderSpecific e @ [\<lparr>Name = k, Value = v\<rparr>]\<rparr>"

definition setPtrMarker :: "Endpoint \<Rightarrow> Endpoint" where
  "setPtrMarker ep =
     (let found = list_ex (\<lambda>x. Name x = providerSpecificInfobloxPtrRecord) (ProviderSpecific ep);
          ep1 = ep\<lparr>ProviderSpecific :=
                    map (\<lambda>x. if Name x = providerSpecificInfobloxPtrRecord
                             then x\<lparr>Value := ''true''\<rparr> else x) (ProviderSpecific ep)\<rparr>
      in if \<not> found then WithProviderSpecific ep1 providerSpecificInfobloxPtrRecord ''true''
         else ep1)"

text \<open>
  The marking at the end of \<^verbatim>\<open>Records\<close>: \<open>ptrRecordsMap\<close> is the Go map with the DNS
  names of the PTR endpoints as keys, all with the value true.
\<close>

definition ptrRecordsMap :: "Endpoint list \<Rightarrow> string list" where
  "ptrRecordsMap endpoints =
     map DNSName (filter (\<lambda>ptrRecord. RecordType ptrRecord = RecordTypePTR) endpoints)"

definition markPtrRecords :: "Endpoint list \<Rightarrow> Endpoint list" where
  "markPtrRecords endpoints =
     map (\<lambda>ep. if RecordType ep \<noteq> RecordTypeA then ep
               else if DNSName ep \<in> set (ptrRecordsMap endpoints) then setPtrMarker ep
               else ep) endpoints"

definition Records :: "extlib \<Rightarrow> Provider \<Rightarrow> error + Endpoint list" where
  "Records X p =
     (case zones p of
        Inl err \<Rightarrow> Inl (Wrapped ''could not fetch zones'' err)
      | Inr zs \<Rightarrow>
          (case deserializeEAs X (ExtAttrsJSON (config p)) of
             Inl err \<Rightarrow> Inl err
           | Inr extAttrs \<Rightarrow>
               (case Records_loop X p extAttrs zs [] of
                  Inl err \<Rightarrow> Inl err
                | Inr endpoints \<Rightarrow>
                    Inr (if CreatePTR (config p) then markPtrRecords endpoints else endpoints))))"



subsection \<open>Concrete inputs\<close>

text \<open>
  A library instance for inputs whose extensible attributes are the empty JSON object
  and whose zone names are no CIDR blocks: there \<^verbatim>\<open>json.Unmarshal\<close> gives the empty
  map and \<^verbatim>\<open>CidrToInAddr\<close> an error. A backend that reports not found on every call,
  and one that fails on every call.
\<close>

definition extlibEmpty :: extlib where
  "extlibEmpty =
     \<lparr>Unmarshal = (\<lambda>s. if s = ''{}'' then Inr [] else Inl (OtherError ''invalid JSON'')),
      CidrToInAddr = (\<lambda>s. Inl (OtherError ''invalid CIDR address''))\<rparr>"

definition connectorNotFound :: IBConnector where
  "connectorNotFound =
     \<lparr>getZones = (\<lambda>_. (NotFoundError ''not found'', [])),
      getRecords = (\<lambda>_ _ _ _. (NotFoundError ''not found'', []))\<rparr>"

definition connectorDown :: IBConnector where
  "connectorDown =
     \<lparr>getZones = (\<lambda>_. (OtherError ''connection refused'', [])),
      getRecords = (\<lambda>_ _ _ _. (OtherError ''connection refused'', []))\<rparr>"

definition connectorRecordsDown :: IBConnector where
  "connectorRecordsDown =
     \<lparr>getZones = (\<lambda>_. (nil, [\<lparr>Fqdn = ''example.com''\<rparr>])),
      getRecords = (\<lambda>t _ _ _. if t = RecordTXT then (OtherError ''connection refused'', [])
                               else (NotFoundError ''not found'', []))\<rparr>"

section \<open>Target differ: CountDiff and the fan-out of ApplyChanges\<close>

text \<open>
  \<^verbatim>\<open>plan.Changes\<close> holds four slices of pointers to endpoints, and \<^verbatim>\<open>CountDiff\<close>
  removes targets from an endpoint of \<^verbatim>\<open>UpdateNew\<close> through a pointer taken from a map.
  The endpoints therefore live in a store: a pointer is an index into the list of
  allocated endpoints, \<^verbatim>\<open>DeepCopy\<close> allocates at the end of the list. The pointers in
  the batches are taken to be non-nil and allocated (\<open>r < length h\<close>), and distinct
  endpoints do not share the array of their targets.
\<close>

type_synonym ref = nat
type_synonym store = "Endpoint list"

record Changes =
  Create :: "ref list"
  UpdateOld :: "ref list"
  UpdateNew :: "ref list"
  Delete :: "ref list"

text \<open>
  A Go map with string keys is an association list with distinct keys: assignment is
  \<open>AList.update\<close>, lookup \<open>map_of\<close>, \<^verbatim>\<open>delete\<close> is \<open>AList.delete\<close>. Go leaves the order
  in which \<^verbatim>\<open>range\<close> visits the keys of a map unspecified: the order is the parameter
  \<open>ord\<close>, which gives the keys of a map in the order of the visit, each key once.
\<close>

definition rangeOrder :: "(string list \<Rightarrow> string list) \<Rightarrow> bool" where
  "rangeOrder ord \<longleftrightarrow> (\<forall>ks. distinct ks \<longrightarrow> mset (ord ks) = mset ks)"

definition endpointsToMap :: "store \<Rightarrow> ref list \<Rightarrow> (string \<times> ref) list" where
  "endpointsToMap h eps =
     fold (\<lambda>v m. AList.update (DNSName (h ! v) @ ''_'' @ RecordType (h ! v)) v m) eps []"

definition targetsToMap :: "string list \<Rightarrow> (string \<times> bool) list" where
  "targetsToMap targets = fold (\<lambda>v m. AList.update v True m) targets []"

text \<open>Reading a \<^verbatim>\<open>map[string]bool\<close>: a missing key reads as false.\<close>

definition lookupBool :: "(string \<times> bool) list \<Rightarrow> string \<Rightarrow> bool" where
  "lookupBool m k = (case map_of m k of None \<Rightarrow> False | Some b \<Rightarrow> b)"

definition cloneWithSingleTarget :: "store \<Rightarrow> ref \<Rightarrow> string \<Rightarrow> store \<times> ref" where
  "cloneWithSingleTarget h ep target = (h @ [(h ! ep)\<lparr>Targets := [target]\<rparr>], length h)"

definition removeTargetFromEndpoint :: "store \<Rightarrow> ref \<Rightarrow> string \<Rightarrow> store" where
  "removeTargetFromEndpoint h ep target =
     h[ep := (h ! ep)\<lparr>Targets := remove1 target (Targets (h ! ep))\<rparr>]"

fun removeFromEndpointSlice :: "store \<Rightarrow> ref list \<Rightarrow> ref \<Rightarrow> ref list" where
  "removeFromEndpointSlice h [] ep = []"
| "removeFromEndpointSlice h (e # eps) ep =
     (if DNSName (h ! e) = DNSName (h ! ep) then eps
      else e # removeFromEndpointSlice h eps ep)"

text \<open>
  The body of the first loop, over the keys of \<open>updateOldMap\<close>: an old endpoint whose
  key is not in \<open>updateNewMap\<close> is moved to \<^verbatim>\<open>Delete\<close>.
\<close>

definition oldLoop_body ::
  "store \<Rightarrow> (string \<times> ref) list \<Rightarrow> string
     \<Rightarrow> Changes \<times> (string \<times> ref) list \<Rightarrow> Changes \<times> (string \<times> ref) list" where
  "oldLoop_body h updateNewMap k s =
     (let (changes, updateOldMap) = s in
      case map_of updateOldMap k of
        None \<Rightarrow> (changes, updateOldMap)
      | Some oldEp \<Rightarrow>
          (case map_of updateNewMap k of
             None \<Rightarrow>
               (changes\<lparr>Delete := Delete changes @ [oldEp],
                        UpdateOld := removeFromEndpointSlice h (UpdateOld changes) oldEp\<rparr>,
                AList.delete k updateOldMap)
           | Some newEp \<Rightarrow> (changes, updateOldMap)))"

text \<open>The two loops over the targets of an endpoint found in both maps.\<close>

fun deleteTargets ::
  "ref \<Rightarrow> ref \<Rightarrow> (string \<times> bool) list \<Rightarrow> string list \<Rightarrow> store \<times> Changes \<Rightarrow> store \<times> Changes" where
  "deleteTargets oldEp newEp newTargets [] s = s"
| "deleteTargets oldEp newEp newTargets (target # ts) s =
     (let (h, changes) = s in
      if \<not> lookupBool newTargets target then
        (let (h1, clone) = cloneWithSingleTarget h oldEp target;
             changes1 = changes\<lparr>Delete := Delete changes @ [clone]\<rparr>;
             h2 = removeTargetFromEndpoint h1 newEp target
         in deleteTargets oldEp newEp newTargets ts (h2, changes1))
      else deleteTargets oldEp newEp newTargets ts (h, changes))"

fun createTargets ::
  "ref \<Rightarrow> (string \<times> bool) list \<Rightarrow> string list \<Rightarrow> store \<times> Changes \<Rightarrow> store \<times> Changes" where
  "createTargets newEp oldTargets [] s = s"
| "createTargets newEp oldTargets (target # ts) s =
     (let (h, changes) = s in
      if \<not> lookupBool oldTargets target then
        (let (h1, clone) = cloneWithSingleTarget h newEp target;
             changes1 = changes\<lparr>Create := Create changes @ [clone]\<rparr>;
             h2 = removeTargetFromEndpoint h1 newEp target
         in createTargets newEp oldTargets ts (h2, changes1))
      else createTargets newEp oldTargets ts (h, changes))"

text \<open>
  The body of the second loop, over the keys of \<open>updateNewMap\<close>: a new endpoint without
  old one is moved to \<^verbatim>\<open>Create\<close>; otherwise the targets are compared.
\<close>

definition newLoop_body ::
  "(string list \<Rightarrow> string list) \<Rightarrow> (string \<times> ref) list \<Rightarrow> (string \<times> ref) list \<Rightarrow> string
     \<Rightarrow> store \<times> Changes \<Rightarrow> store \<times> Changes" where
  "newLoop_body ord updateOldMap updateNewMap k s =
     (let (h, changes) = s in
      case map_of updateNewMap k of
        None \<Rightarrow> (h, changes)
      | Some newEp \<Rightarrow>
          (case map_of updateOldMap k of
             None \<Rightarrow>
               (h, changes\<lparr>Create := Create changes @ [newEp],
                           UpdateNew := removeFromEndpointSlice h (UpdateNew changes) newEp\<rparr>)
           | Some oldEp \<Rightarrow>
               (let oldTargets = targetsToMap (Targets (h ! oldEp));
                    newTargets = targetsToMap (Targets (h ! newEp));
                    s1 = deleteTargets oldEp newEp newTargets (ord (map fst oldTargets)) (h, changes)
                in createTargets newEp oldTargets (ord (map fst newTargets)) s1)))"

definition CountDiff :: "(string list \<Rightarrow> string list) \<Rightarrow> store \<times> Changes \<Rightarrow> store \<times> Changes" where
  "CountDiff ord s =
     (let (h, changes) = s;
          updateNewMap = endpointsToMap h (UpdateNew changes);
          updateOldMap = endpointsToMap h (UpdateOld changes);
          (changes1, updateOldMap1) =
             fold (oldLoop_body h updateNewMap) (ord (map fst updateOldMap)) (changes, updateOldMap)
      in fold (newLoop_body ord updateOldMap1 updateNewMap) (ord (map fst updateNewMap)) (h, changes1))"

text \<open>
  \<^verbatim>\<open>newIBChanges\<close>: one change per target of each endpoint, on a fresh copy of the
  endpoint that nothing else refers to, hence given by value.
\<close>

definition newIBChanges :: "store \<Rightarrow> string \<Rightarrow> ref list \<Rightarrow> infobloxChange list" where
  "newIBChanges h action eps =
     concat (map (\<lambda>ep. map (\<lambda>target. \<lparr>Action = action, Endpoint = (h ! ep)\<lparr>Targets := [target]\<rparr>\<rparr>)
                          (Targets (h ! ep))) eps)"

text \<open>
  \<^verbatim>\<open>ApplyChanges\<close> up to the call of \<^verbatim>\<open>submitChanges\<close>: the value of
  \<^verbatim>\<open>combinedChanges\<close> that is submitted.
\<close>

definition ApplyChanges_combined ::
  "(string list \<Rightarrow> string list) \<Rightarrow> store \<times> Changes \<Rightarrow> infobloxChange list" where
  "ApplyChanges_combined ord s =
     (let (h, changes) = CountDiff ord s
      in newIBChanges h infobloxCreate (Create changes)
         @ newIBChanges h infobloxUpdate (UpdateNew changes)
         @ newIBChanges h infobloxDelete (Delete changes))"

subsection \<open>Concrete inputs\<close>

text \<open>The order that visits the keys as they were inserted, and its reverse.\<close>

definition insertionOrder :: "string list \<Rightarrow> string list" where
  "insertionOrder ks = ks"

definition reverseOrder :: "string list \<Rightarrow> string list" where
  "reverseOrder ks = rev ks"

section \<open>Zone router: forward zones\<close>

lemma longer_cases:
  "longer zone r = Some z \<Longrightarrow> z = zone \<or> r = Some z"
  by (auto simp: longer_def split: option.splits if_splits)

lemma longer_not_None [simp]: "longer zone r \<noteq> None"
  by (simp add: longer_def split: option.splits)

lemma findZone_loop_None:
  "findZone_loop L name zs r = None \<longleftrightarrow>
     r = None \<and> (\<forall>z\<in>set zs. \<not> (HasSuffix name (''.'' @ Fqdn z) \<or> EqualFold L name (Fqdn z)))"
  by (induction zs arbitrary: r) auto

lemma findZone_loop_Some:
  "findZone_loop L name zs r = Some z \<Longrightarrow>
     ((z \<in> set zs \<and> (HasSuffix name (''.'' @ Fqdn z) \<or> EqualFold L name (Fqdn z))) \<or> r = Some z)
     \<and> (\<forall>z'\<in>set zs. HasSuffix name (''.'' @ Fqdn z') \<or> EqualFold L name (Fqdn z')
            \<longrightarrow> length (Fqdn z') \<le> length (Fqdn z))
     \<and> (\<forall>r'. r = Some r' \<longrightarrow> length (Fqdn r') \<le> length (Fqdn z))"
proof (induction zs arbitrary: r)
  case Nil
  then show ?case by simp
next
  case (Cons zone zs)
  let ?c = "HasSuffix name (''.'' @ Fqdn zone) \<or> EqualFold L name (Fqdn zone)"
  show ?case
  proof (cases ?c)
    case True
    then have run: "findZone_loop L name zs (longer zone r) = Some z"
      using Cons.prems by (cases "HasSuffix name (''.'' @ Fqdn zone)") simp_all
    note ih = Cons.IH [OF run]
    obtain q where q: "longer zone r = Some q" and qz: "length (Fqdn q) \<le> length (Fqdn z)"
      and qlen: "length (Fqdn zone) \<le> length (Fqdn q)"
      and qr: "\<forall>r'. r = Some r' \<longrightarrow> length (Fqdn r') \<le> length (Fqdn q)"
      and qc: "q = zone \<or> r = Some q"
      using ih by (cases r) (auto simp: longer_def split: if_splits)
    from ih q qc True have a: "(z \<in> set (zone # zs) \<and> (HasSuffix name (''.'' @ Fqdn z) \<or> EqualFold L name (Fqdn z))) \<or> r = Some z"
      by auto
    from ih qz qlen have b: "\<forall>z'\<in>set (zone # zs). HasSuffix name (''.'' @ Fqdn z') \<or> EqualFold L name (Fqdn z')
            \<longrightarrow> length (Fqdn z') \<le> length (Fqdn z)"
      by auto
    from qr qz have c: "\<forall>r'. r = Some r' \<longrightarrow> length (Fqdn r') \<le> length (Fqdn z)"
      by auto
    from a b c show ?thesis by blast
  next
    case False
    then have run: "findZone_loop L name zs r = Some z"
      using Cons.prems by auto
    from Cons.IH [OF run] False show ?thesis by auto
  qed
qed

text \<open>
  C4. \<^verbatim>\<open>findZone\<close> returns no zone exactly when no zone matches the name, where a zone
  matches when the name equals the zone name case-insensitively or ends with a dot
  followed by the zone name; a returned zone is in the list, matches, and no matching
  zone has a longer name. For the zs example.com and a.example.com, in either order,
  the name host.a.example.com is routed to a.example.com.
\<close>

theorem findZone_longest_match:
  "(findZone L zs name = None \<longleftrightarrow>
      (\<forall>z\<in>set zs. \<not> (EqualFold L name (Fqdn z) \<or> HasSuffix name (''.'' @ Fqdn z))))
   \<and> (\<forall>z. findZone L zs name = Some z \<longrightarrow>
        z \<in> set zs
        \<and> (EqualFold L name (Fqdn z) \<or> HasSuffix name (''.'' @ Fqdn z))
        \<and> (\<forall>z'\<in>set zs. EqualFold L name (Fqdn z') \<or> HasSuffix name (''.'' @ Fqdn z')
              \<longrightarrow> length (Fqdn z') \<le> length (Fqdn z)))
   \<and> findZone L [\<lparr>Fqdn = ''example.com''\<rparr>, \<lparr>Fqdn = ''a.example.com''\<rparr>] ''host.a.example.com''
        = Some \<lparr>Fqdn = ''a.example.com''\<rparr>
   \<and> findZone L [\<lparr>Fqdn = ''a.example.com''\<rparr>, \<lparr>Fqdn = ''example.com''\<rparr>] ''host.a.example.com''
        = Some \<lparr>Fqdn = ''a.example.com''\<rparr>"
proof -
  have n: "findZone L zs name = None \<longleftrightarrow>
      (\<forall>z\<in>set zs. \<not> (EqualFold L name (Fqdn z) \<or> HasSuffix name (''.'' @ Fqdn z)))"
    unfolding findZone_def using findZone_loop_None [of L name zs None] by auto
  have s: "\<forall>z. findZone L zs name = Some z \<longrightarrow>
        z \<in> set zs
        \<and> (EqualFold L name (Fqdn z) \<or> HasSuffix name (''.'' @ Fqdn z))
        \<and> (\<forall>z'\<in>set zs. EqualFold L name (Fqdn z') \<or> HasSuffix name (''.'' @ Fqdn z')
              \<longrightarrow> length (Fqdn z') \<le> length (Fqdn z))"
  proof (intro allI impI)
    fix z assume "findZone L zs name = Some z"
    then have "findZone_loop L name zs None = Some z" by (simp add: findZone_def)
    from findZone_loop_Some [OF this] show "z \<in> set zs
        \<and> (EqualFold L name (Fqdn z) \<or> HasSuffix name (''.'' @ Fqdn z))
        \<and> (\<forall>z'\<in>set zs. EqualFold L name (Fqdn z') \<or> HasSuffix name (''.'' @ Fqdn z')
              \<longrightarrow> length (Fqdn z') \<le> length (Fqdn z))"
      by auto
  qed
  have e1: "findZone L [\<lparr>Fqdn = ''example.com''\<rparr>, \<lparr>Fqdn = ''a.example.com''\<rparr>] ''host.a.example.com''
        = Some \<lparr>Fqdn = ''a.example.com''\<rparr>"
    by (simp add: findZone_def HasSuffix_def longer_def)
  have e2: "findZone L [\<lparr>Fqdn = ''a.example.com''\<rparr>, \<lparr>Fqdn = ''example.com''\<rparr>] ''host.a.example.com''
        = Some \<lparr>Fqdn = ''a.example.com''\<rparr>"
    by (simp add: findZone_def HasSuffix_def longer_def)
  from n s e1 e2 show ?thesis by blast
qed

theorem findZone_longest_match_witness:
  "findZone goASCIIv4 [\<lparr>Fqdn = ''example.com''\<rparr>, \<lparr>Fqdn = ''a.example.com''\<rparr>] ''A.Example.Com''
     = Some \<lparr>Fqdn = ''a.example.com''\<rparr>
   \<and> EqualFold goASCIIv4 ''A.Example.Com'' ''a.example.com''
   \<and> length ''example.com'' \<le> length ''a.example.com''
   \<and> findZone goASCIIv4 [\<lparr>Fqdn = ''example.com''\<rparr>, \<lparr>Fqdn = ''a.example.com''\<rparr>] ''host.other.org'' = None"
proof -
  have a: "findZone goASCIIv4 [\<lparr>Fqdn = ''example.com''\<rparr>, \<lparr>Fqdn = ''a.example.com''\<rparr>] ''A.Example.Com''
     = Some \<lparr>Fqdn = ''a.example.com''\<rparr>"
    by code_simp
  have b: "\<forall>z\<in>set [\<lparr>Fqdn = ''example.com''\<rparr>, \<lparr>Fqdn = ''a.example.com''\<rparr>].
     \<not> (EqualFold goASCIIv4 ''host.other.org'' (Fqdn z) \<or> HasSuffix ''host.other.org'' (''.'' @ Fqdn z))"
    by (simp add: goASCIIv4_def EqualFoldASCII_def HasSuffix_def)
  have c: "EqualFold goASCIIv4 ''A.Example.Com'' ''a.example.com''"
    by code_simp
  from findZone_longest_match [of goASCIIv4 "[\<lparr>Fqdn = ''example.com''\<rparr>, \<lparr>Fqdn = ''a.example.com''\<rparr>]" "''host.other.org''"] b
  have d: "findZone goASCIIv4 [\<lparr>Fqdn = ''example.com''\<rparr>, \<lparr>Fqdn = ''a.example.com''\<rparr>] ''host.other.org'' = None"
    by blast
  from findZone_longest_match [of goASCIIv4 "[\<lparr>Fqdn = ''example.com''\<rparr>, \<lparr>Fqdn = ''a.example.com''\<rparr>]" "''A.Example.Com''"] a
  have e: "length (Fqdn \<lparr>Fqdn = ''example.com''\<rparr>) \<le> length (Fqdn \<lparr>Fqdn = ''a.example.com''\<rparr>)"
    by simp
  from a c d e show ?thesis by simp
qed

section \<open>Zone router: reverse zones\<close>

text \<open>
  What the loop computes when the masks of all zones that contain the address have the
  same bit length \<open>b\<close>, as they have when all of them are IPv4 zones: the last such zone
  is stored under \<open>b\<close>, and \<open>maxMask\<close> becomes \<open>b\<close>.
\<close>

lemma findReverseZone_loop_same_bits:
  assumes "\<forall>z\<in>set zs. \<forall>n. ParseCIDR L (Fqdn z) = Some n \<and> Contains n ip \<longrightarrow> snd (Size (Mask n)) = b"
  shows "findReverseZone_loop L ip zs networks maxMask =
     (let cs = filter (\<lambda>z. case ParseCIDR L (Fqdn z) of None \<Rightarrow> False | Some n \<Rightarrow> Contains n ip) zs
      in if cs = [] then (networks, maxMask)
         else (networks(b \<mapsto> last cs), max maxMask b))"
  using assms
proof (induction zs arbitrary: networks maxMask)
  case Nil
  then show ?case by simp
next
  case (Cons z zs)
  let ?P = "\<lambda>z. case ParseCIDR L (Fqdn z) of None \<Rightarrow> False | Some n \<Rightarrow> Contains n ip"
  from Cons.prems have rest:
    "\<forall>z\<in>set zs. \<forall>n. ParseCIDR L (Fqdn z) = Some n \<and> Contains n ip \<longrightarrow> snd (Size (Mask n)) = b"
    by simp
  note ih = Cons.IH [OF rest]
  show ?case
  proof (cases "?P z")
    case False
    then have step: "findReverseZone_loop L ip (z # zs) networks maxMask
                 = findReverseZone_loop L ip zs networks maxMask"
      by (simp split: option.splits)
    show ?thesis
      unfolding step ih [of networks maxMask] using False by simp
  next
    case True
    then obtain n where n: "ParseCIDR L (Fqdn z) = Some n" "Contains n ip"
      by (auto split: option.splits)
    with Cons.prems have b: "snd (Size (Mask n)) = b" by simp
    have step: "findReverseZone_loop L ip (z # zs) networks maxMask
            = findReverseZone_loop L ip zs (networks(b \<mapsto> z)) (if b > maxMask then b else maxMask)"
      using n b by (simp add: Let_def)
    show ?thesis
      unfolding step ih [of "networks(b \<mapsto> z)" "if b > maxMask then b else maxMask"]
      using True by (simp add: Let_def max_def)
  qed
qed

lemma findReverseZone_same_bits:
  assumes "\<forall>z\<in>set zs. \<forall>n. ParseCIDR L (Fqdn z) = Some n \<and> Contains n (ParseIP L name)
              \<longrightarrow> snd (Size (Mask n)) = b"
    and "0 \<le> b"
  shows "findReverseZone L zs name =
     (let cs = filter (\<lambda>z. case ParseCIDR L (Fqdn z) of None \<Rightarrow> False
                              | Some n \<Rightarrow> Contains n (ParseIP L name)) zs
      in if cs = [] then None else Some (last cs))"
  unfolding findReverseZone_def
  using findReverseZone_loop_same_bits [OF assms(1), of Map.empty 0] assms(2)
  by (simp add: Let_def max_def)

lemma ParseCIDR_10_1_16: "ParseCIDR goASCIIv4 ''10.1.0.0/16'' = Some \<lparr>IP = [10, 1, 0, 0], Mask = [255, 255, 0, 0]\<rparr>"
  by code_simp
lemma ParseCIDR_10_8: "ParseCIDR goASCIIv4 ''10.0.0.0/8'' = Some \<lparr>IP = [10, 0, 0, 0], Mask = [255, 0, 0, 0]\<rparr>"
  by code_simp
lemma ParseIP_10_1_2_3: "ParseIP goASCIIv4 ''10.1.2.3'' = [0, 0, 0, 0, 0, 0, 0, 0, 0, 0, 255, 255, 10, 1, 2, 3]"
  by code_simp
lemma Contains_10_1_16: "Contains \<lparr>IP = [10, 1, 0, 0], Mask = [255, 255, 0, 0]\<rparr> [0, 0, 0, 0, 0, 0, 0, 0, 0, 0, 255, 255, 10, 1, 2, 3]"
  by (simp add: Contains_def networkNumberAndMask_def To4_def IPv4len_def IPv6len_def eval_nat_numeral upt_rec)
lemma Contains_10_8: "Contains \<lparr>IP = [10, 0, 0, 0], Mask = [255, 0, 0, 0]\<rparr> [0, 0, 0, 0, 0, 0, 0, 0, 0, 0, 255, 255, 10, 1, 2, 3]"
  by (simp add: Contains_def networkNumberAndMask_def To4_def IPv4len_def IPv6len_def eval_nat_numeral upt_rec)
lemma Size_16: "Size [255, 255, 0, 0] = (16, 32)"
  by code_simp
lemma Size_8: "Size [255, 0, 0, 0] = (8, 32)"
  by code_simp

text \<open>
  C1. The claim: among the zones whose CIDR contains the address, \<^verbatim>\<open>findReverseZone\<close>
  returns the one with the largest prefix length, whatever the order of the zone list.
  The code keys \<open>networks\<close> by the second result of \<^verbatim>\<open>Size\<close>, the bit length of the
  mask (32 for every IPv4 zone), so the zone seen last among the containing ones is
  returned: with the /16 zone listed before the /8 zone, the address 10.1.2.3 is
  routed to the /8 zone.
\<close>

theorem findReverseZone_last_seen_wins:
  "findReverseZone goASCIIv4 [\<lparr>Fqdn = ''10.1.0.0/16''\<rparr>, \<lparr>Fqdn = ''10.0.0.0/8''\<rparr>] ''10.1.2.3''
     = Some \<lparr>Fqdn = ''10.0.0.0/8''\<rparr>
   \<and> findReverseZone goASCIIv4 [\<lparr>Fqdn = ''10.0.0.0/8''\<rparr>, \<lparr>Fqdn = ''10.1.0.0/16''\<rparr>] ''10.1.2.3''
     = Some \<lparr>Fqdn = ''10.1.0.0/16''\<rparr>"
  by (simp add: findReverseZone_def ParseCIDR_10_1_16 ParseCIDR_10_8 ParseIP_10_1_2_3 Contains_10_1_16 Contains_10_8 Size_16 Size_8)

section \<open>Change batcher: what the loop adds to the map\<close>

lemma ChangesByZone_loop_append:
  "ChangesByZone_loop L p zs (cs1 @ cs2) m =
     (case ChangesByZone_loop L p zs cs1 m of
        Inl e \<Rightarrow> Inl e
      | Inr m' \<Rightarrow> ChangesByZone_loop L p zs cs2 m')"
  by (induction cs1 arbitrary: m) (auto split: sum.splits)

lemma appendChange_mono:
  "m k = Some xs \<Longrightarrow> \<exists>ys. appendChange m k' c k = Some ys \<and> set xs \<subseteq> set ys"
  by (auto simp: appendChange_def)

lemma appendChange_here:
  "\<exists>ys. appendChange m k c k = Some ys \<and> c \<in> set ys"
  by (auto simp: appendChange_def)

lemma appendChange_elem:
  "appendChange m k' c k = Some ys \<Longrightarrow> x \<in> set ys \<Longrightarrow>
     (k = k' \<and> x = c) \<or> (\<exists>xs. m k = Some xs \<and> x \<in> set xs)"
  by (auto simp: appendChange_def split: if_splits option.splits)

lemma ChangesByZone_body_mono:
  assumes "ChangesByZone_body L p zs c m = Inr m'" and "m k = Some xs"
  shows "\<exists>ys. m' k = Some ys \<and> set xs \<subseteq> set ys"
proof -
  have two: "\<exists>zs. appendChange (appendChange m k1 c1) k2 c2 k = Some zs \<and> set xs \<subseteq> set zs" for k1 c1 k2 c2
  proof -
    from appendChange_mono [of m k xs k1 c1] assms(2) obtain ys where
      ys: "appendChange m k1 c1 k = Some ys" "set xs \<subseteq> set ys" by blast
    from appendChange_mono [of "appendChange m k1 c1" k ys k2 c2] ys(1) obtain zs where
      "appendChange (appendChange m k1 c1) k2 c2 k = Some zs" "set ys \<subseteq> set zs" by blast
    with ys(2) show ?thesis by blast
  qed
  have one: "\<exists>ys. appendChange m k1 c1 k = Some ys \<and> set xs \<subseteq> set ys" for k1 c1
    using appendChange_mono [of m k xs k1 c1] assms(2) by blast
  from assms(1) show ?thesis
    using one two assms(2)
    by (auto simp: ChangesByZone_body_def Let_def
             split: option.splits if_splits list.splits)
qed

lemma ChangesByZone_loop_mono:
  "ChangesByZone_loop L p zs cs m = Inr m' \<Longrightarrow> m k = Some xs \<Longrightarrow>
     \<exists>ys. m' k = Some ys \<and> set xs \<subseteq> set ys"
proof (induction cs arbitrary: m xs)
  case Nil
  then show ?case by simp
next
  case (Cons c cs)
  from Cons.prems(1) obtain m1 where
    b: "ChangesByZone_body L p zs c m = Inr m1" and l: "ChangesByZone_loop L p zs cs m1 = Inr m'"
    by (auto split: sum.splits)
  from ChangesByZone_body_mono [OF b Cons.prems(2)] obtain ys where
    ys: "m1 k = Some ys" "set xs \<subseteq> set ys" by blast
  from Cons.IH [OF l ys(1)] ys(2) show ?case by blast
qed

lemma ChangesByZone_body_forward:
  assumes "ChangesByZone_body L p zs c m = Inr m'"
    and "findZone L zs (DNSName (Endpoint c)) = Some z" and "Fqdn z \<noteq> []"
  shows "\<exists>ys. m' (Fqdn z) = Some ys \<and> c \<in> set ys"
proof -
  from appendChange_here obtain ys where
    ys: "appendChange m (Fqdn z) c (Fqdn z) = Some ys" "c \<in> set ys" by blast
  from appendChange_mono [of "appendChange m (Fqdn z) c" "Fqdn z" ys] ys
  have "\<exists>zs. appendChange (appendChange m (Fqdn z) c) k2 c2 (Fqdn z) = Some zs \<and> c \<in> set zs" for k2 c2
    by blast
  with assms ys show ?thesis
    by (auto simp: ChangesByZone_body_def Let_def split: if_splits list.splits option.splits)
qed

lemma ChangesByZone_body_ptr:
  assumes "ChangesByZone_body L p zs c m = Inr m'"
    and "findZone L zs (DNSName (Endpoint c)) = Some z" and "Fqdn z \<noteq> []"
    and "CreatePTR (config p)" and "RecordType (Endpoint c) = RecordTypeA"
    and "Targets (Endpoint c) = t # ts" and "findReverseZone L zs t = Some rz"
  shows "\<exists>ys. m' (Fqdn rz) = Some ys
           \<and> \<lparr>Action = Action c, Endpoint = (Endpoint c)\<lparr>RecordType := RecordTypePTR\<rparr>\<rparr> \<in> set ys"
  using assms appendChange_here
  by (auto simp: ChangesByZone_body_def Let_def)

lemma ChangesByZone_body_elem:
  assumes "ChangesByZone_body L p zs c m = Inr m'" and "m' k = Some ys" and "x \<in> set ys"
  shows "(\<exists>xs. m k = Some xs \<and> x \<in> set xs)
       \<or> (\<exists>z. findZone L zs (DNSName (Endpoint c)) = Some z \<and> Fqdn z \<noteq> []
             \<and> ((x = c \<and> k = Fqdn z)
                \<or> (\<exists>t ts rz. CreatePTR (config p) \<and> RecordType (Endpoint c) = RecordTypeA
                      \<and> Targets (Endpoint c) = t # ts \<and> findReverseZone L zs t = Some rz
                      \<and> k = Fqdn rz
                      \<and> x = \<lparr>Action = Action c, Endpoint = (Endpoint c)\<lparr>RecordType := RecordTypePTR\<rparr>\<rparr>)))"
proof (cases "findZone L zs (DNSName (Endpoint c))")
  case None
  with assms show ?thesis by (auto simp: ChangesByZone_body_def)
next
  case (Some z)
  show ?thesis
  proof (cases "Fqdn z = []")
    case True
    with Some assms show ?thesis by (auto simp: ChangesByZone_body_def)
  next
    case nz: False
    let ?m1 = "appendChange m (Fqdn z) c"
    have one: "?m1 k = Some ys' \<Longrightarrow> x \<in> set ys' \<Longrightarrow> ?thesis" for ys'
      using appendChange_elem [of m "Fqdn z" c k ys' x] Some nz by auto
    show ?thesis
    proof (cases "CreatePTR (config p) \<and> RecordType (Endpoint c) = RecordTypeA")
      case False
      with Some nz assms have "m' = ?m1" by (auto simp: ChangesByZone_body_def Let_def)
      with assms one show ?thesis by blast
    next
      case ptr: True
      show ?thesis
      proof (cases "Targets (Endpoint c)")
        case Nil
        with Some nz ptr assms show ?thesis by (auto simp: ChangesByZone_body_def Let_def)
      next
        case (Cons t ts)
        show ?thesis
        proof (cases "findReverseZone L zs t")
          case None
          with Cons Some nz ptr assms have "m' = ?m1" by (auto simp: ChangesByZone_body_def Let_def)
          with assms one show ?thesis by blast
        next
          case rz: (Some rz)
          let ?x = "\<lparr>Action = Action c, Endpoint = (Endpoint c)\<lparr>RecordType := RecordTypePTR\<rparr>\<rparr>"
          from rz Cons Some nz ptr assms have m': "m' = appendChange ?m1 (Fqdn rz) ?x"
            by (auto simp: ChangesByZone_body_def Let_def)
          from appendChange_elem [of ?m1 "Fqdn rz" ?x k ys x] assms m'
          consider "k = Fqdn rz" "x = ?x" | ys' where "?m1 k = Some ys'" "x \<in> set ys'"
            by blast
          then show ?thesis
          proof cases
            case 1
            with rz Cons Some nz ptr show ?thesis by auto
          next
            case 2
            with one show ?thesis by blast
          qed
        qed
      qed
    qed
  qed
qed

lemma ChangesByZone_loop_split:
  assumes "ChangesByZone_loop L p zs cs m = Inr m'" and "c \<in> set cs"
  obtains m1 m2 cs2 where "ChangesByZone_body L p zs c m1 = Inr m2"
    and "ChangesByZone_loop L p zs cs2 m2 = Inr m'"
proof -
  from assms(2) obtain cs1 cs2 where cs: "cs = cs1 @ c # cs2"
    by (auto dest: split_list)
  from assms(1) show thesis
    unfolding cs ChangesByZone_loop_append
    by (auto split: sum.splits intro: that)
qed

lemma ChangesByZone_loop_forward:
  assumes "ChangesByZone_loop L p zs cs m = Inr m'" and "c \<in> set cs"
    and "findZone L zs (DNSName (Endpoint c)) = Some z" and "Fqdn z \<noteq> []"
  shows "\<exists>ys. m' (Fqdn z) = Some ys \<and> c \<in> set ys"
proof -
  from assms(1,2) obtain m1 m2 cs2 where
    b: "ChangesByZone_body L p zs c m1 = Inr m2" and l: "ChangesByZone_loop L p zs cs2 m2 = Inr m'"
    by (rule ChangesByZone_loop_split)
  from ChangesByZone_body_forward [OF b assms(3,4)] obtain ys where
    ys: "m2 (Fqdn z) = Some ys" "c \<in> set ys" by blast
  from ChangesByZone_loop_mono [OF l ys(1)] ys(2) show ?thesis by blast
qed

lemma ChangesByZone_loop_ptr:
  assumes "ChangesByZone_loop L p zs cs m = Inr m'" and "c \<in> set cs"
    and "findZone L zs (DNSName (Endpoint c)) = Some z" and "Fqdn z \<noteq> []"
    and "CreatePTR (config p)" and "RecordType (Endpoint c) = RecordTypeA"
    and "Targets (Endpoint c) = t # ts" and "findReverseZone L zs t = Some rz"
  shows "\<exists>ys. m' (Fqdn rz) = Some ys
           \<and> \<lparr>Action = Action c, Endpoint = (Endpoint c)\<lparr>RecordType := RecordTypePTR\<rparr>\<rparr> \<in> set ys"
proof -
  from assms(1,2) obtain m1 m2 cs2 where
    b: "ChangesByZone_body L p zs c m1 = Inr m2" and l: "ChangesByZone_loop L p zs cs2 m2 = Inr m'"
    by (rule ChangesByZone_loop_split)
  from ChangesByZone_body_ptr [OF b assms(3-8)] obtain ys where
    ys: "m2 (Fqdn rz) = Some ys"
        "\<lparr>Action = Action c, Endpoint = (Endpoint c)\<lparr>RecordType := RecordTypePTR\<rparr>\<rparr> \<in> set ys"
    by blast
  from ChangesByZone_loop_mono [OF l ys(1)] ys(2) show ?thesis by blast
qed

lemma ChangesByZone_loop_elem:
  "ChangesByZone_loop L p zs cs m = Inr m' \<Longrightarrow> m' k = Some ys \<Longrightarrow> x \<in> set ys \<Longrightarrow>
     (\<exists>xs. m k = Some xs \<and> x \<in> set xs)
     \<or> (\<exists>c\<in>set cs. \<exists>z. findZone L zs (DNSName (Endpoint c)) = Some z \<and> Fqdn z \<noteq> []
             \<and> ((x = c \<and> k = Fqdn z)
                \<or> (\<exists>t ts rz. CreatePTR (config p) \<and> RecordType (Endpoint c) = RecordTypeA
                      \<and> Targets (Endpoint c) = t # ts \<and> findReverseZone L zs t = Some rz
                      \<and> k = Fqdn rz
                      \<and> x = \<lparr>Action = Action c, Endpoint = (Endpoint c)\<lparr>RecordType := RecordTypePTR\<rparr>\<rparr>)))"
proof (induction cs arbitrary: m)
  case Nil
  then show ?case by simp
next
  case (Cons c cs)
  from Cons.prems(1) obtain m1 where
    b: "ChangesByZone_body L p zs c m = Inr m1" and l: "ChangesByZone_loop L p zs cs m1 = Inr m'"
    by (auto split: sum.splits)
  from Cons.IH [OF l Cons.prems(2,3)] show ?case
  proof
    assume "\<exists>xs. m1 k = Some xs \<and> x \<in> set xs"
    then obtain xs where xs: "m1 k = Some xs" "x \<in> set xs" by blast
    from ChangesByZone_body_elem [OF b xs] show ?thesis by auto
  next
    assume "\<exists>c\<in>set cs. \<exists>z. findZone L zs (DNSName (Endpoint c)) = Some z \<and> Fqdn z \<noteq> []
             \<and> ((x = c \<and> k = Fqdn z)
                \<or> (\<exists>t ts rz. CreatePTR (config p) \<and> RecordType (Endpoint c) = RecordTypeA
                      \<and> Targets (Endpoint c) = t # ts \<and> findReverseZone L zs t = Some rz
                      \<and> k = Fqdn rz
                      \<and> x = \<lparr>Action = Action c, Endpoint = (Endpoint c)\<lparr>RecordType := RecordTypePTR\<rparr>\<rparr>))"
    then show ?thesis by auto
  qed
qed

lemma ChangesByZone_body_no_panic:
  "Targets (Endpoint c) \<noteq> [] \<Longrightarrow> \<exists>m'. ChangesByZone_body L p zs c m = Inr m'"
  by (auto simp: ChangesByZone_body_def Let_def split: option.splits list.splits)

lemma ChangesByZone_loop_no_panic:
  "\<forall>c\<in>set cs. Targets (Endpoint c) \<noteq> [] \<Longrightarrow> \<exists>m'. ChangesByZone_loop L p zs cs m = Inr m'"
proof (induction cs arbitrary: m)
  case Nil
  then show ?case by simp
next
  case (Cons c cs)
  then obtain m1 where "ChangesByZone_body L p zs c m = Inr m1"
    using ChangesByZone_body_no_panic [of c L p zs m] by auto
  with Cons show ?case by simp
qed

lemma seedZones_fold_empty:
  "fold (\<lambda>z changes. changes(Fqdn z \<mapsto> [])) zs m k = Some xs \<Longrightarrow> xs = [] \<or> m k = Some xs"
proof (induction zs arbitrary: m)
  case Nil
  then show ?case by simp
next
  case (Cons z zs)
  from Cons.prems have "fold (\<lambda>z changes. changes(Fqdn z \<mapsto> [])) zs (m(Fqdn z \<mapsto> [])) k = Some xs"
    by (simp only: fold_simps)
  from Cons.IH [OF this] show ?case by (auto split: if_splits)
qed

lemma seedZones_empty: "seedZones zs k = Some xs \<Longrightarrow> xs = []"
  using seedZones_fold_empty [of zs Map.empty k xs] by (simp add: seedZones_def)

subsection \<open>Concrete routing facts\<close>

lemma findZone_host_example_com:
  "findZone goASCIIv4 [\<lparr>Fqdn = ''example.com''\<rparr>, \<lparr>Fqdn = ''10.0.0.0/8''\<rparr>] ''host.example.com''
     = Some \<lparr>Fqdn = ''example.com''\<rparr>"
  by code_simp

lemma findZone_host_other_org:
  "findZone goASCIIv4 [\<lparr>Fqdn = ''example.com''\<rparr>, \<lparr>Fqdn = ''10.0.0.0/8''\<rparr>] ''host.other.org'' = None"
  by code_simp

lemma ParseCIDR_example_com: "ParseCIDR goASCIIv4 ''example.com'' = None"
  by code_simp

lemma findReverseZone_10_1_2_3:
  "findReverseZone goASCIIv4 [\<lparr>Fqdn = ''example.com''\<rparr>, \<lparr>Fqdn = ''10.0.0.0/8''\<rparr>] ''10.1.2.3''
     = Some \<lparr>Fqdn = ''10.0.0.0/8''\<rparr>"
  by (simp add: findReverseZone_def ParseCIDR_example_com ParseCIDR_10_8 ParseIP_10_1_2_3
        Contains_10_8 Size_8)

lemma findZone_forward_only:
  "findZone goASCIIv4 [\<lparr>Fqdn = ''example.com''\<rparr>] ''host.example.com'' = Some \<lparr>Fqdn = ''example.com''\<rparr>"
  by code_simp

lemma findReverseZone_forward_only:
  "findReverseZone goASCIIv4 [\<lparr>Fqdn = ''example.com''\<rparr>] ''5.5.5.5'' = None"
  by (simp add: findReverseZone_def ParseCIDR_example_com)

section \<open>Change batcher: PTR companions and unrouted changes\<close>

text \<open>
  C3, as the code has it. For a change on an A record that is routed to a forward zone,
  with reverse-record generation enabled and a reverse zone found for its single target,
  the change list of that reverse zone holds a companion change with the same action
  and record type PTR whose endpoint is otherwise the original one: its DNS name is the
  original DNS name and its single target is the original target, the address.
\<close>

theorem ChangesByZone_PTR_companion:
  assumes "\<forall>c\<in>set cs. Targets (Endpoint c) \<noteq> []"
    and "c \<in> set cs"
    and "CreatePTR (config p)" and "RecordType (Endpoint c) = RecordTypeA"
    and "findZone L zs (DNSName (Endpoint c)) = Some z" and "Fqdn z \<noteq> []"
    and "Targets (Endpoint c) = [t]" and "findReverseZone L zs t = Some rz"
  shows "\<exists>xs x. zoneChanges (ChangesByZone L p zs cs) (Fqdn rz) = Some xs \<and> x \<in> set xs
           \<and> Action x = Action c
           \<and> Endpoint x = (Endpoint c)\<lparr>RecordType := RecordTypePTR\<rparr>
           \<and> RecordType (Endpoint x) = RecordTypePTR
           \<and> DNSName (Endpoint x) = DNSName (Endpoint c)
           \<and> Targets (Endpoint x) = [t]"
proof -
  from ChangesByZone_loop_no_panic [OF assms(1)] obtain m where
    m: "ChangesByZone_loop L p zs cs (seedZones zs) = Inr m" by blast
  from ChangesByZone_loop_ptr [OF m assms(2) assms(5,6) assms(3,4) assms(7,8)] obtain ys where
    ys: "m (Fqdn rz) = Some ys"
        "\<lparr>Action = Action c, Endpoint = (Endpoint c)\<lparr>RecordType := RecordTypePTR\<rparr>\<rparr> \<in> set ys"
    by blast
  let ?x = "\<lparr>Action = Action c, Endpoint = (Endpoint c)\<lparr>RecordType := RecordTypePTR\<rparr>\<rparr>"
  from m ys have "zoneChanges (ChangesByZone L p zs cs) (Fqdn rz) = Some ys"
    by (simp add: zoneChanges_def ChangesByZone_def)
  moreover have "Action ?x = Action c" "Endpoint ?x = (Endpoint c)\<lparr>RecordType := RecordTypePTR\<rparr>"
    "RecordType (Endpoint ?x) = RecordTypePTR" "DNSName (Endpoint ?x) = DNSName (Endpoint c)"
    "Targets (Endpoint ?x) = [t]"
    using assms(7) by simp_all
  ultimately show ?thesis using ys(2) by blast
qed

text \<open>
  The claim as stated (DNS name equal to the target address, single target equal to the
  original DNS name) fails: the companion of the create of host.example.com with target
  10.1.2.3 has the DNS name host.example.com and the target 10.1.2.3.
\<close>

theorem ChangesByZone_PTR_keeps_name:
  "zoneChanges
     (ChangesByZone goASCIIv4 providerPTR [\<lparr>Fqdn = ''example.com''\<rparr>, \<lparr>Fqdn = ''10.0.0.0/8''\<rparr>]
        [\<lparr>Action = infobloxCreate, Endpoint = endpointA ''host.example.com'' [''10.1.2.3'']\<rparr>])
     ''10.0.0.0/8''
   = Some [\<lparr>Action = ''CREATE'',
            Endpoint = \<lparr>DNSName = ''host.example.com'', Targets = [''10.1.2.3''],
                        RecordType = ''PTR'', SetIdentifier = [], RecordTTL = 300, Labels = [],
                        ProviderSpecific = []\<rparr>\<rparr>]"
  by (simp add: zoneChanges_def ChangesByZone_def ChangesByZone_body_def seedZones_def appendChange_def
        endpointA_def providerPTR_def findZone_host_example_com findReverseZone_10_1_2_3
        RecordTypeA_def RecordTypePTR_def infobloxCreate_def)

theorem ChangesByZone_PTR_companion_witness:
  "\<exists>xs x. zoneChanges
       (ChangesByZone goASCIIv4 providerPTR [\<lparr>Fqdn = ''example.com''\<rparr>, \<lparr>Fqdn = ''10.0.0.0/8''\<rparr>]
          [\<lparr>Action = infobloxCreate, Endpoint = endpointA ''host.example.com'' [''10.1.2.3'']\<rparr>])
       ''10.0.0.0/8'' = Some xs \<and> x \<in> set xs
     \<and> Action x = infobloxCreate
     \<and> RecordType (Endpoint x) = RecordTypePTR
     \<and> DNSName (Endpoint x) = ''host.example.com''
     \<and> Targets (Endpoint x) = [''10.1.2.3'']"
  using ChangesByZone_PTR_companion [of
      "[\<lparr>Action = infobloxCreate, Endpoint = endpointA ''host.example.com'' [''10.1.2.3'']\<rparr>]"
      "\<lparr>Action = infobloxCreate, Endpoint = endpointA ''host.example.com'' [''10.1.2.3'']\<rparr>"
      providerPTR goASCIIv4 "[\<lparr>Fqdn = ''example.com''\<rparr>, \<lparr>Fqdn = ''10.0.0.0/8''\<rparr>]"
      "\<lparr>Fqdn = ''example.com''\<rparr>" "''10.1.2.3''" "\<lparr>Fqdn = ''10.0.0.0/8''\<rparr>"]
  apply (simp add: endpointA_def providerPTR_def findZone_host_example_com findReverseZone_10_1_2_3)
  apply blast
  done

text \<open>
  C10. A change whose DNS name matches no forward zone contributes nothing: the result
  is the one obtained without it, also when reverse-record generation is enabled, the
  change is on an A record and a reverse zone contains its target, as in the witness.
\<close>

theorem ChangesByZone_unrouted_contributes_nothing:
  assumes "findZone L zs (DNSName (Endpoint c)) = None"
  shows "ChangesByZone L p zs (cs1 @ c # cs2) = ChangesByZone L p zs (cs1 @ cs2)"
  using assms
  by (simp add: ChangesByZone_def ChangesByZone_loop_append ChangesByZone_body_def split: sum.splits)

theorem ChangesByZone_unrouted_contributes_nothing_witness:
  "CreatePTR (config providerPTR)
   \<and> RecordType (endpointA ''host.other.org'' [''10.1.2.3'']) = RecordTypeA
   \<and> findReverseZone goASCIIv4 [\<lparr>Fqdn = ''example.com''\<rparr>, \<lparr>Fqdn = ''10.0.0.0/8''\<rparr>] ''10.1.2.3''
       = Some \<lparr>Fqdn = ''10.0.0.0/8''\<rparr>
   \<and> ChangesByZone goASCIIv4 providerPTR [\<lparr>Fqdn = ''example.com''\<rparr>, \<lparr>Fqdn = ''10.0.0.0/8''\<rparr>]
        [\<lparr>Action = infobloxCreate, Endpoint = endpointA ''host.other.org'' [''10.1.2.3'']\<rparr>]
     = ChangesByZone goASCIIv4 providerPTR [\<lparr>Fqdn = ''example.com''\<rparr>, \<lparr>Fqdn = ''10.0.0.0/8''\<rparr>] []"
  using ChangesByZone_unrouted_contributes_nothing [of goASCIIv4
      "[\<lparr>Fqdn = ''example.com''\<rparr>, \<lparr>Fqdn = ''10.0.0.0/8''\<rparr>]"
      "\<lparr>Action = infobloxCreate, Endpoint = endpointA ''host.other.org'' [''10.1.2.3'']\<rparr>"
      providerPTR "[]" "[]"]
  by (simp add: endpointA_def providerPTR_def findZone_host_other_org findReverseZone_10_1_2_3)

text \<open>
  C6. When every change carries a target, batching returns a map and never fails, whether
  or not the changes can be routed. Every change routed to a forward zone is in that
  zone's list, also when no reverse zone matches its target. Every change in the result
  is either an input change routed to a forward zone, or the PTR companion of such a
  change for which a reverse zone was found: a change without forward zone leaves
  nothing, and one without reverse zone leaves only the forward change. In the scenario
  of the spec (zone example.com only, reverse records enabled, create of
  host.example.com with target 5.5.5.5) the result holds the forward create alone.
\<close>

theorem ChangesByZone_unroutable_not_fatal:
  assumes "\<forall>c\<in>set cs. Targets (Endpoint c) \<noteq> []"
  shows "(\<exists>m. ChangesByZone L p zs cs = Inr m)
    \<and> (\<forall>c\<in>set cs. \<forall>z. findZone L zs (DNSName (Endpoint c)) = Some z \<and> Fqdn z \<noteq> [] \<longrightarrow>
          (\<exists>xs. zoneChanges (ChangesByZone L p zs cs) (Fqdn z) = Some xs \<and> c \<in> set xs))
    \<and> (\<forall>k xs x. zoneChanges (ChangesByZone L p zs cs) k = Some xs \<and> x \<in> set xs \<longrightarrow>
          (\<exists>c\<in>set cs. \<exists>z. findZone L zs (DNSName (Endpoint c)) = Some z \<and> Fqdn z \<noteq> []
             \<and> ((x = c \<and> k = Fqdn z)
                \<or> (\<exists>rz. CreatePTR (config p) \<and> RecordType (Endpoint c) = RecordTypeA
                      \<and> findReverseZone L zs (hd (Targets (Endpoint c))) = Some rz
                      \<and> k = Fqdn rz
                      \<and> x = \<lparr>Action = Action c, Endpoint = (Endpoint c)\<lparr>RecordType := RecordTypePTR\<rparr>\<rparr>))))
    \<and> ChangesByZone goASCIIv4 providerPTR [\<lparr>Fqdn = ''example.com''\<rparr>]
          [\<lparr>Action = infobloxCreate, Endpoint = endpointA ''host.example.com'' [''5.5.5.5'']\<rparr>]
        = Inr [''example.com'' \<mapsto>
                 [\<lparr>Action = infobloxCreate, Endpoint = endpointA ''host.example.com'' [''5.5.5.5'']\<rparr>]]"
proof -
  from ChangesByZone_loop_no_panic [OF assms] obtain m where
    m: "ChangesByZone_loop L p zs cs (seedZones zs) = Inr m" by blast
  then have r: "ChangesByZone L p zs cs = Inr m" by (simp add: ChangesByZone_def)
  have a: "\<exists>m. ChangesByZone L p zs cs = Inr m" using r by blast
  have b: "\<forall>c\<in>set cs. \<forall>z. findZone L zs (DNSName (Endpoint c)) = Some z \<and> Fqdn z \<noteq> [] \<longrightarrow>
          (\<exists>xs. zoneChanges (ChangesByZone L p zs cs) (Fqdn z) = Some xs \<and> c \<in> set xs)"
    using ChangesByZone_loop_forward [OF m] by (auto simp: r zoneChanges_def)
  have c: "\<forall>k xs x. zoneChanges (ChangesByZone L p zs cs) k = Some xs \<and> x \<in> set xs \<longrightarrow>
          (\<exists>c\<in>set cs. \<exists>z. findZone L zs (DNSName (Endpoint c)) = Some z \<and> Fqdn z \<noteq> []
             \<and> ((x = c \<and> k = Fqdn z)
                \<or> (\<exists>rz. CreatePTR (config p) \<and> RecordType (Endpoint c) = RecordTypeA
                      \<and> findReverseZone L zs (hd (Targets (Endpoint c))) = Some rz
                      \<and> k = Fqdn rz
                      \<and> x = \<lparr>Action = Action c, Endpoint = (Endpoint c)\<lparr>RecordType := RecordTypePTR\<rparr>\<rparr>)))"
  proof (intro allI impI)
    fix k xs x
    assume "zoneChanges (ChangesByZone L p zs cs) k = Some xs \<and> x \<in> set xs"
    then have k: "m k = Some xs" and x: "x \<in> set xs" by (simp_all add: r zoneChanges_def)
    from ChangesByZone_loop_elem [OF m k x]
    show "\<exists>c\<in>set cs. \<exists>z. findZone L zs (DNSName (Endpoint c)) = Some z \<and> Fqdn z \<noteq> []
             \<and> ((x = c \<and> k = Fqdn z)
                \<or> (\<exists>rz. CreatePTR (config p) \<and> RecordType (Endpoint c) = RecordTypeA
                      \<and> findReverseZone L zs (hd (Targets (Endpoint c))) = Some rz
                      \<and> k = Fqdn rz
                      \<and> x = \<lparr>Action = Action c, Endpoint = (Endpoint c)\<lparr>RecordType := RecordTypePTR\<rparr>\<rparr>))"
    proof
      assume "\<exists>xs. seedZones zs k = Some xs \<and> x \<in> set xs"
      then show ?thesis using seedZones_empty [of zs k] by auto
    next
      assume "\<exists>c\<in>set cs. \<exists>z. findZone L zs (DNSName (Endpoint c)) = Some z \<and> Fqdn z \<noteq> []
             \<and> ((x = c \<and> k = Fqdn z)
                \<or> (\<exists>t ts rz. CreatePTR (config p) \<and> RecordType (Endpoint c) = RecordTypeA
                      \<and> Targets (Endpoint c) = t # ts \<and> findReverseZone L zs t = Some rz
                      \<and> k = Fqdn rz
                      \<and> x = \<lparr>Action = Action c, Endpoint = (Endpoint c)\<lparr>RecordType := RecordTypePTR\<rparr>\<rparr>))"
      then show ?thesis by fastforce
    qed
  qed
  have d: "ChangesByZone goASCIIv4 providerPTR [\<lparr>Fqdn = ''example.com''\<rparr>]
          [\<lparr>Action = infobloxCreate, Endpoint = endpointA ''host.example.com'' [''5.5.5.5'']\<rparr>]
        = Inr [''example.com'' \<mapsto>
                 [\<lparr>Action = infobloxCreate, Endpoint = endpointA ''host.example.com'' [''5.5.5.5'']\<rparr>]]"
    by (simp add: ChangesByZone_def ChangesByZone_body_def seedZones_def appendChange_def
          endpointA_def providerPTR_def findZone_forward_only findReverseZone_forward_only)
  from a b c d show ?thesis by blast
qed

theorem ChangesByZone_unroutable_not_fatal_witness:
  "findReverseZone goASCIIv4 [\<lparr>Fqdn = ''example.com''\<rparr>] ''5.5.5.5'' = None
   \<and> (\<exists>m. ChangesByZone goASCIIv4 providerPTR [\<lparr>Fqdn = ''example.com''\<rparr>]
          [\<lparr>Action = infobloxCreate, Endpoint = endpointA ''host.example.com'' [''5.5.5.5'']\<rparr>] = Inr m)
   \<and> (\<exists>xs. zoneChanges
         (ChangesByZone goASCIIv4 providerPTR [\<lparr>Fqdn = ''example.com''\<rparr>]
            [\<lparr>Action = infobloxCreate, Endpoint = endpointA ''host.example.com'' [''5.5.5.5'']\<rparr>])
         ''example.com'' = Some xs
       \<and> \<lparr>Action = infobloxCreate, Endpoint = endpointA ''host.example.com'' [''5.5.5.5'']\<rparr> \<in> set xs)"
  using ChangesByZone_unroutable_not_fatal [of
      "[\<lparr>Action = infobloxCreate, Endpoint = endpointA ''host.example.com'' [''5.5.5.5'']\<rparr>]"
      goASCIIv4 providerPTR "[\<lparr>Fqdn = ''example.com''\<rparr>]"]
  by (simp add: endpointA_def findZone_forward_only findReverseZone_forward_only zoneChanges_def)

section \<open>PTR marker\<close>

lemma setPtrMarker_fields [simp]:
  "DNSName (setPtrMarker ep) = DNSName ep" "RecordType (setPtrMarker ep) = RecordType ep"
  "RecordTTL (setPtrMarker ep) = RecordTTL ep"
  by (simp_all add: setPtrMarker_def WithProviderSpecific_def Let_def)


















section \<open>Backend failures in zones and Records\<close>

lemma zones_cases:
  "getZones (client p) (zonesSearchFields p) = (err, res) \<Longrightarrow>
     zones p = (if err \<noteq> nil \<and> \<not> isNotFoundError err then Inl err
                else Inr (filter (\<lambda>zone. domainFilter p (Fqdn zone)) res))"
  by (simp add: zones_def)

lemma Records_body_Inl_iff:
  "(\<exists>e. Records_body X p extAttrs zone endpoints = Inl e) \<longleftrightarrow>
     (\<exists>t\<in>{RecordA, HostRecord, RecordCNAME, RecordTXT}.
         fst (getRecords (client p) t extAttrs (Fqdn zone) (View (config p))) \<noteq> nil
         \<and> \<not> isNotFoundError (fst (getRecords (client p) t extAttrs (Fqdn zone) (View (config p)))))
     \<or> (CreatePTR (config p) \<and>
         (\<exists>arpaZone. CidrToInAddr X (Fqdn zone) = Inr arpaZone
            \<and> fst (getRecords (client p) RecordPTR extAttrs arpaZone (View (config p))) \<noteq> nil
            \<and> \<not> isNotFoundError (fst (getRecords (client p) RecordPTR extAttrs arpaZone (View (config p))))))"
  by (auto simp: Records_body_def Let_def split: prod.splits sum.splits)

lemma Records_loop_Inl_iff:
  "(\<exists>e. Records_loop X p extAttrs zs endpoints = Inl e) \<longleftrightarrow>
     (\<exists>zone\<in>set zs.
        (\<exists>t\<in>{RecordA, HostRecord, RecordCNAME, RecordTXT}.
           fst (getRecords (client p) t extAttrs (Fqdn zone) (View (config p))) \<noteq> nil
           \<and> \<not> isNotFoundError (fst (getRecords (client p) t extAttrs (Fqdn zone) (View (config p)))))
        \<or> (CreatePTR (config p) \<and>
           (\<exists>arpaZone. CidrToInAddr X (Fqdn zone) = Inr arpaZone
              \<and> fst (getRecords (client p) RecordPTR extAttrs arpaZone (View (config p))) \<noteq> nil
              \<and> \<not> isNotFoundError (fst (getRecords (client p) RecordPTR extAttrs arpaZone (View (config p)))))))"
proof -
  define bad where "bad (zone :: ZoneAuth) \<longleftrightarrow>
        (\<exists>t\<in>{RecordA, HostRecord, RecordCNAME, RecordTXT}.
           fst (getRecords (client p) t extAttrs (Fqdn zone) (View (config p))) \<noteq> nil
           \<and> \<not> isNotFoundError (fst (getRecords (client p) t extAttrs (Fqdn zone) (View (config p)))))
        \<or> (CreatePTR (config p) \<and>
           (\<exists>arpaZone. CidrToInAddr X (Fqdn zone) = Inr arpaZone
              \<and> fst (getRecords (client p) RecordPTR extAttrs arpaZone (View (config p))) \<noteq> nil
              \<and> \<not> isNotFoundError (fst (getRecords (client p) RecordPTR extAttrs arpaZone (View (config p))))))"
    for zone
  have body: "(\<exists>e. Records_body X p extAttrs zone eps = Inl e) \<longleftrightarrow> bad zone" for zone eps
    unfolding bad_def by (rule Records_body_Inl_iff)
  have "(\<exists>e. Records_loop X p extAttrs zs eps = Inl e) \<longleftrightarrow> (\<exists>zone\<in>set zs. bad zone)" for eps
  proof (induction zs arbitrary: eps)
    case Nil
    then show ?case by simp
  next
    case (Cons zone zs)
    show ?case
    proof (cases "Records_body X p extAttrs zone eps")
      case (Inl e)
      with body [of zone eps] show ?thesis by simp
    next
      case (Inr eps')
      with body [of zone eps] have "\<not> bad zone" by simp
      with Inr Cons.IH [of eps'] show ?thesis by simp
    qed
  qed
  then show ?thesis unfolding bad_def .
qed

lemma forgiven_failure:
  "(if isNotFoundError e then nil else e) \<noteq> nil \<and> \<not> isNotFoundError (if isNotFoundError e then nil else e)
     \<longleftrightarrow> e \<noteq> nil \<and> \<not> isNotFoundError e"
  by (cases e) simp_all

lemma zones_forgiven:
  "zones (p\<lparr>client :=
       \<lparr>getZones = (\<lambda>sf. case getZones (client p) sf of
                            (err, res) \<Rightarrow> (if isNotFoundError err then nil else err, res)),
        getRecords = (\<lambda>t ea z v. case getRecords (client p) t ea z v of
                            (err, res) \<Rightarrow> (if isNotFoundError err then nil else err, res))\<rparr>\<rparr>)
     = zones p"
  by (cases "getZones (client p) (zonesSearchFields p)")
     (auto simp: zones_def zonesSearchFields_def forgiven_failure)

lemma Records_body_forgiven:
  "Records_body X (p\<lparr>client :=
       \<lparr>getZones = (\<lambda>sf. case getZones (client p) sf of
                            (err, res) \<Rightarrow> (if isNotFoundError err then nil else err, res)),
        getRecords = (\<lambda>t ea z v. case getRecords (client p) t ea z v of
                            (err, res) \<Rightarrow> (if isNotFoundError err then nil else err, res))\<rparr>\<rparr>)
      extAttrs zone endpoints
     = Records_body X p extAttrs zone endpoints"
proof -
  have f: "isNotFoundError e \<Longrightarrow> e \<noteq> nil" for e by (cases e) simp_all
  show ?thesis
    by (auto simp: Records_body_def Let_def f split: prod.splits sum.splits)
qed

lemma Records_loop_forgiven:
  "Records_loop X (p\<lparr>client :=
       \<lparr>getZones = (\<lambda>sf. case getZones (client p) sf of
                            (err, res) \<Rightarrow> (if isNotFoundError err then nil else err, res)),
        getRecords = (\<lambda>t ea z v. case getRecords (client p) t ea z v of
                            (err, res) \<Rightarrow> (if isNotFoundError err then nil else err, res))\<rparr>\<rparr>)
      extAttrs zs endpoints
     = Records_loop X p extAttrs zs endpoints"
  by (induction zs arbitrary: endpoints) (simp_all add: Records_body_forgiven split: sum.splits)

lemma Records_forgiven:
  "Records X (p\<lparr>client :=
       \<lparr>getZones = (\<lambda>sf. case getZones (client p) sf of
                            (err, res) \<Rightarrow> (if isNotFoundError err then nil else err, res)),
        getRecords = (\<lambda>t ea z v. case getRecords (client p) t ea z v of
                            (err, res) \<Rightarrow> (if isNotFoundError err then nil else err, res))\<rparr>\<rparr>)
     = Records X p"
  by (simp add: Records_def zones_forgiven Records_loop_forgiven split: sum.splits)

text \<open>
  C8. At the zone listing, a failure other than not found is returned by \<^verbatim>\<open>zones\<close>
  and, wrapped, by \<^verbatim>\<open>Records\<close>; after nil or not found the zones are the filtered
  contents of the result buffer, so none when the backend delivered none. Once the
  zones are listed and the extensible attributes read, \<^verbatim>\<open>Records\<close> returns an error
  exactly when one of its record fetches (A, host, CNAME or TXT of a zone, or PTR of
  its in-addr zone when reverse records are enabled) fails with an error other than
  not found. A backend whose not-found failures are replaced by success with the same
  buffer gives the same results: not found is treated as the fetch of what the buffer
  holds, which is nothing.
\<close>

theorem notFound_is_empty_and_other_failures_abort:
  "(\<forall>err res. getZones (client p) (zonesSearchFields p) = (err, res) \<longrightarrow>
      (if err \<noteq> nil \<and> \<not> isNotFoundError err
       then zones p = Inl err \<and> Records X p = Inl (Wrapped ''could not fetch zones'' err)
       else zones p = Inr (filter (\<lambda>zone. domainFilter p (Fqdn zone)) res)))
   \<and> (\<forall>zs extAttrs. zones p = Inr zs \<and> deserializeEAs X (ExtAttrsJSON (config p)) = Inr extAttrs \<longrightarrow>
        ((\<exists>e. Records X p = Inl e) \<longleftrightarrow>
         (\<exists>zone\<in>set zs.
            (\<exists>t\<in>{RecordA, HostRecord, RecordCNAME, RecordTXT}.
               fst (getRecords (client p) t extAttrs (Fqdn zone) (View (config p))) \<noteq> nil
               \<and> \<not> isNotFoundError (fst (getRecords (client p) t extAttrs (Fqdn zone) (View (config p)))))
            \<or> (CreatePTR (config p) \<and>
               (\<exists>arpaZone. CidrToInAddr X (Fqdn zone) = Inr arpaZone
                  \<and> fst (getRecords (client p) RecordPTR extAttrs arpaZone (View (config p))) \<noteq> nil
                  \<and> \<not> isNotFoundError
                        (fst (getRecords (client p) RecordPTR extAttrs arpaZone (View (config p)))))))))
   \<and> zones (p\<lparr>client :=
       \<lparr>getZones = (\<lambda>sf. case getZones (client p) sf of
                            (err, res) \<Rightarrow> (if isNotFoundError err then nil else err, res)),
        getRecords = (\<lambda>t ea z v. case getRecords (client p) t ea z v of
                            (err, res) \<Rightarrow> (if isNotFoundError err then nil else err, res))\<rparr>\<rparr>)
       = zones p
   \<and> Records X (p\<lparr>client :=
       \<lparr>getZones = (\<lambda>sf. case getZones (client p) sf of
                            (err, res) \<Rightarrow> (if isNotFoundError err then nil else err, res)),
        getRecords = (\<lambda>t ea z v. case getRecords (client p) t ea z v of
                            (err, res) \<Rightarrow> (if isNotFoundError err then nil else err, res))\<rparr>\<rparr>)
       = Records X p"
proof -
  have a: "\<forall>err res. getZones (client p) (zonesSearchFields p) = (err, res) \<longrightarrow>
      (if err \<noteq> nil \<and> \<not> isNotFoundError err
       then zones p = Inl err \<and> Records X p = Inl (Wrapped ''could not fetch zones'' err)
       else zones p = Inr (filter (\<lambda>zone. domainFilter p (Fqdn zone)) res))"
    by (auto simp: zones_cases Records_def)
  have b: "\<forall>zs extAttrs. zones p = Inr zs \<and> deserializeEAs X (ExtAttrsJSON (config p)) = Inr extAttrs \<longrightarrow>
        ((\<exists>e. Records X p = Inl e) \<longleftrightarrow>
         (\<exists>zone\<in>set zs.
            (\<exists>t\<in>{RecordA, HostRecord, RecordCNAME, RecordTXT}.
               fst (getRecords (client p) t extAttrs (Fqdn zone) (View (config p))) \<noteq> nil
               \<and> \<not> isNotFoundError (fst (getRecords (client p) t extAttrs (Fqdn zone) (View (config p)))))
            \<or> (CreatePTR (config p) \<and>
               (\<exists>arpaZone. CidrToInAddr X (Fqdn zone) = Inr arpaZone
                  \<and> fst (getRecords (client p) RecordPTR extAttrs arpaZone (View (config p))) \<noteq> nil
                  \<and> \<not> isNotFoundError
                        (fst (getRecords (client p) RecordPTR extAttrs arpaZone (View (config p))))))))"
  proof (intro allI impI)
    fix zs extAttrs
    assume h: "zones p = Inr zs \<and> deserializeEAs X (ExtAttrsJSON (config p)) = Inr extAttrs"
    then have "(\<exists>e. Records X p = Inl e) \<longleftrightarrow> (\<exists>e. Records_loop X p extAttrs zs [] = Inl e)"
      by (auto simp: Records_def split: sum.splits)
    then show "(\<exists>e. Records X p = Inl e) \<longleftrightarrow>
         (\<exists>zone\<in>set zs.
            (\<exists>t\<in>{RecordA, HostRecord, RecordCNAME, RecordTXT}.
               fst (getRecords (client p) t extAttrs (Fqdn zone) (View (config p))) \<noteq> nil
               \<and> \<not> isNotFoundError (fst (getRecords (client p) t extAttrs (Fqdn zone) (View (config p)))))
            \<or> (CreatePTR (config p) \<and>
               (\<exists>arpaZone. CidrToInAddr X (Fqdn zone) = Inr arpaZone
                  \<and> fst (getRecords (client p) RecordPTR extAttrs arpaZone (View (config p))) \<noteq> nil
                  \<and> \<not> isNotFoundError
                        (fst (getRecords (client p) RecordPTR extAttrs arpaZone (View (config p)))))))"
      by (simp only: Records_loop_Inl_iff)
  qed
  from a b zones_forgiven [of p] Records_forgiven [of X p] show ?thesis by blast
qed

theorem notFound_is_empty_and_other_failures_abort_witness:
  "zones (providerPTR\<lparr>client := connectorNotFound\<rparr>) = Inr []
   \<and> Records extlibEmpty (providerPTR\<lparr>client := connectorNotFound\<rparr>) = Inr []
   \<and> zones (providerPTR\<lparr>client := connectorDown\<rparr>) = Inl (OtherError ''connection refused'')
   \<and> Records extlibEmpty (providerPTR\<lparr>client := connectorDown\<rparr>)
       = Inl (Wrapped ''could not fetch zones'' (OtherError ''connection refused''))
   \<and> zones (providerPTR\<lparr>client := connectorRecordsDown\<rparr>) = Inr [\<lparr>Fqdn = ''example.com''\<rparr>]
   \<and> (\<exists>e. Records extlibEmpty (providerPTR\<lparr>client := connectorRecordsDown\<rparr>) = Inl e)"
proof -
  have nf: "getZones (client (providerPTR\<lparr>client := connectorNotFound\<rparr>))
              (zonesSearchFields (providerPTR\<lparr>client := connectorNotFound\<rparr>))
            = (NotFoundError ''not found'', [])"
    by (simp add: connectorNotFound_def)
  have dn: "getZones (client (providerPTR\<lparr>client := connectorDown\<rparr>))
              (zonesSearchFields (providerPTR\<lparr>client := connectorDown\<rparr>))
            = (OtherError ''connection refused'', [])"
    by (simp add: connectorDown_def)
  have rd: "getZones (client (providerPTR\<lparr>client := connectorRecordsDown\<rparr>))
              (zonesSearchFields (providerPTR\<lparr>client := connectorRecordsDown\<rparr>))
            = (nil, [\<lparr>Fqdn = ''example.com''\<rparr>])"
    by (simp add: connectorRecordsDown_def)
  have ea: "deserializeEAs extlibEmpty (ExtAttrsJSON (config providerPTR)) = Inr []"
    by (simp add: deserializeEAs_def extlibEmpty_def providerPTR_def)
  from notFound_is_empty_and_other_failures_abort
         [of "providerPTR\<lparr>client := connectorNotFound\<rparr>" extlibEmpty] nf
  have a: "zones (providerPTR\<lparr>client := connectorNotFound\<rparr>) = Inr []"
    by simp
  have a': "Records extlibEmpty (providerPTR\<lparr>client := connectorNotFound\<rparr>) = Inr []"
    by (simp add: Records_def a ea markPtrRecords_def)
  from notFound_is_empty_and_other_failures_abort
         [of "providerPTR\<lparr>client := connectorDown\<rparr>" extlibEmpty] dn
  have b: "zones (providerPTR\<lparr>client := connectorDown\<rparr>) = Inl (OtherError ''connection refused'')
     \<and> Records extlibEmpty (providerPTR\<lparr>client := connectorDown\<rparr>)
       = Inl (Wrapped ''could not fetch zones'' (OtherError ''connection refused''))"
    by simp
  from notFound_is_empty_and_other_failures_abort
         [of "providerPTR\<lparr>client := connectorRecordsDown\<rparr>" extlibEmpty] rd
  have c: "zones (providerPTR\<lparr>client := connectorRecordsDown\<rparr>) = Inr [\<lparr>Fqdn = ''example.com''\<rparr>]"
    by (simp add: providerPTR_def matchAll_def)
  have bad: "fst (getRecords connectorRecordsDown RecordTXT [] ''example.com'' (View (config providerPTR)))
             = OtherError ''connection refused''"
    by (simp add: connectorRecordsDown_def)
  from notFound_is_empty_and_other_failures_abort
         [of "providerPTR\<lparr>client := connectorRecordsDown\<rparr>" extlibEmpty] c ea bad
  have d: "\<exists>e. Records extlibEmpty (providerPTR\<lparr>client := connectorRecordsDown\<rparr>) = Inl e"
    by simp
  from a a' b c d show ?thesis by simp
qed

section \<open>Target differ: maps and iteration order\<close>

lemma rangeOrder_distinct:
  "rangeOrder ord \<Longrightarrow> distinct ks \<Longrightarrow> distinct (ord ks) \<and> set (ord ks) = set ks"
  unfolding rangeOrder_def by (metis mset_eq_imp_distinct_iff mset_eq_setD)


lemma rangeOrder_empty: "rangeOrder ord \<Longrightarrow> ord [] = []"
proof -
  assume "rangeOrder ord"
  then have "mset (ord []) = mset []" unfolding rangeOrder_def by (metis distinct.simps(1))
  then show ?thesis by simp
qed

lemma targetsToMap_fold:
  "map_of (fold (\<lambda>v m. AList.update v True m) ts m) t
     = (if t \<in> set ts then Some True else map_of m t)"
  by (induction ts arbitrary: m) (auto simp: update_conv')

lemma targetsToMap_fold_keys:
  "distinct (map fst m) \<Longrightarrow>
     distinct (map fst (fold (\<lambda>v m. AList.update v True m) ts m))
     \<and> set (map fst (fold (\<lambda>v m. AList.update v True m) ts m)) = set (map fst m) \<union> set ts"
proof (induction ts arbitrary: m)
  case Nil
  then show ?case by simp
next
  case (Cons t ts)
  have d: "distinct (map fst (AList.update t True m))"
    using Cons.prems by (rule distinct_update)
  have s: "set (map fst (AList.update t True m)) = insert t (set (map fst m))"
    by (simp add: dom_update)
  from Cons.IH [OF d] s show ?case by auto
qed

lemma targetsToMap_keys:
  "distinct (map fst (targetsToMap ts))" "set (map fst (targetsToMap ts)) = set ts"
  using targetsToMap_fold_keys [of "[]" ts] by (simp_all add: targetsToMap_def)

lemma lookupBool_targetsToMap: "lookupBool (targetsToMap ts) t \<longleftrightarrow> t \<in> set ts"
  by (simp add: lookupBool_def targetsToMap_def targetsToMap_fold)

lemma endpointsToMap_keys:
  "distinct (map fst (endpointsToMap h eps))"
proof -
  have "distinct (map fst m) \<Longrightarrow>
     distinct (map fst (fold (\<lambda>v m. AList.update (DNSName (h ! v) @ ''_'' @ RecordType (h ! v)) v m) eps m))"
    for m
    by (induction eps arbitrary: m) (simp_all add: distinct_update)
  from this [of "[]"] show ?thesis by (simp add: endpointsToMap_def)
qed









lemma rangeOrder_insertionOrder: "rangeOrder insertionOrder"
  by (simp add: rangeOrder_def insertionOrder_def)

lemma rangeOrder_reverseOrder: "rangeOrder reverseOrder"
  by (simp add: rangeOrder_def reverseOrder_def)



section \<open>Target differ: the same batch as old and new\<close>

lemma deleteTargets_noop:
  "\<forall>t\<in>set ts. lookupBool newTargets t \<Longrightarrow> deleteTargets oldEp newEp newTargets ts s = s"
  by (induction ts arbitrary: s) (auto split: prod.splits)

lemma createTargets_noop:
  "\<forall>t\<in>set ts. lookupBool oldTargets t \<Longrightarrow> createTargets newEp oldTargets ts s = s"
  by (induction ts arbitrary: s) (auto split: prod.splits)

lemma newLoop_body_same_map:
  assumes "rangeOrder ord"
  shows "newLoop_body ord m m k s = s"
proof (cases "map_of m k")
  case None
  then show ?thesis by (simp add: newLoop_body_def split: prod.splits)
next
  case (Some r)
  obtain h changes where s: "s = (h, changes)" by (cases s)
  let ?T = "targetsToMap (Targets (h ! r))"
  from rangeOrder_distinct [OF assms targetsToMap_keys(1), of "Targets (h ! r)"]
  have a: "set (ord (map fst ?T)) = set (map fst ?T)"
    by blast
  have "set (ord (map fst ?T)) = set (Targets (h ! r))"
    unfolding a by (rule targetsToMap_keys(2))
  then have all: "\<forall>t\<in>set (ord (map fst ?T)). lookupBool ?T t"
    by (simp add: lookupBool_targetsToMap)
  show ?thesis
    unfolding s
    by (simp add: newLoop_body_def Some Let_def deleteTargets_noop [OF all] createTargets_noop [OF all])
qed

lemma oldLoop_noop:
  "\<forall>k\<in>set ks. map_of updateNewMap k \<noteq> None \<Longrightarrow>
     fold (oldLoop_body h updateNewMap) ks s = s"
proof (induction ks arbitrary: s)
  case Nil
  then show ?case by simp
next
  case (Cons k ks)
  then have "oldLoop_body h updateNewMap k s = s"
    by (auto simp: oldLoop_body_def split: prod.splits option.splits)
  with Cons show ?case by simp
qed

lemma CountDiff_same_updates:
  assumes "rangeOrder ord" and "UpdateOld changes = UpdateNew changes"
  shows "CountDiff ord (h, changes) = (h, changes)"
proof -
  let ?m = "endpointsToMap h (UpdateNew changes)"
  from rangeOrder_distinct [OF assms(1) endpointsToMap_keys, of h "UpdateNew changes"]
  have "\<forall>k\<in>set (ord (map fst ?m)). map_of ?m k \<noteq> None"
    by (auto simp: map_of_eq_None_iff)
  then have l1: "fold (oldLoop_body h ?m) (ord (map fst ?m)) (changes, ?m) = (changes, ?m)"
    by (rule oldLoop_noop)
  have l2: "fold (newLoop_body ord ?m ?m) ks s = s" for ks s
    by (induction ks arbitrary: s) (simp_all add: newLoop_body_same_map [OF assms(1)])
  show ?thesis
    by (simp add: CountDiff_def Let_def assms(2) l1 l2)
qed

text \<open>
  C5, as the code has it. With the same batch \<open>X\<close> as create, update-old and update-new
  batch and an empty delete batch, \<^verbatim>\<open>CountDiff\<close> changes nothing, for any order of
  map iteration and whether or not the keys of \<open>X\<close> are unique: it adds no create and no
  delete. The submitted changes are the fan-out of \<open>X\<close> as creates followed by the
  fan-out of \<open>X\<close> as updates: no delete, and one create and one update per target.
\<close>

theorem CountDiff_same_batch:
  assumes "rangeOrder ord"
  shows "CountDiff ord (h, \<lparr>Create = X, UpdateOld = X, UpdateNew = X, Delete = []\<rparr>)
           = (h, \<lparr>Create = X, UpdateOld = X, UpdateNew = X, Delete = []\<rparr>)
    \<and> ApplyChanges_combined ord (h, \<lparr>Create = X, UpdateOld = X, UpdateNew = X, Delete = []\<rparr>)
           = newIBChanges h infobloxCreate X @ newIBChanges h infobloxUpdate X
    \<and> (\<forall>c\<in>set (ApplyChanges_combined ord
                    (h, \<lparr>Create = X, UpdateOld = X, UpdateNew = X, Delete = []\<rparr>)).
          Action c \<noteq> infobloxDelete)
    \<and> length (filter (\<lambda>c. Action c = infobloxCreate)
         (ApplyChanges_combined ord (h, \<lparr>Create = X, UpdateOld = X, UpdateNew = X, Delete = []\<rparr>)))
         = (\<Sum>r\<leftarrow>X. length (Targets (h ! r)))
    \<and> length (filter (\<lambda>c. Action c = infobloxUpdate)
         (ApplyChanges_combined ord (h, \<lparr>Create = X, UpdateOld = X, UpdateNew = X, Delete = []\<rparr>)))
         = (\<Sum>r\<leftarrow>X. length (Targets (h ! r)))"
proof -
  let ?ch = "\<lparr>Create = X, UpdateOld = X, UpdateNew = X, Delete = []\<rparr>"
  have cd: "CountDiff ord (h, ?ch) = (h, ?ch)"
    by (rule CountDiff_same_updates [OF assms]) simp
  have out: "ApplyChanges_combined ord (h, ?ch)
      = newIBChanges h infobloxCreate X @ newIBChanges h infobloxUpdate X"
    by (simp add: ApplyChanges_combined_def cd newIBChanges_def)
  have act: "\<forall>c\<in>set (newIBChanges h a Y). Action c = a" for a Y
    by (auto simp: newIBChanges_def)
  have len: "length (newIBChanges h a Y) = (\<Sum>r\<leftarrow>Y. length (Targets (h ! r)))" for a Y
    by (simp add: newIBChanges_def length_concat comp_def)
  have all: "filter (\<lambda>c. Action c = a) (newIBChanges h a Y) = newIBChanges h a Y" for a Y
    using act [of a Y] by (simp add: filter_id_conv)
  have none: "a \<noteq> b \<Longrightarrow> filter (\<lambda>c. Action c = b) (newIBChanges h a Y) = []" for a b Y
    using act [of a Y] by (auto simp: filter_empty_conv)
  have ne: "infobloxCreate \<noteq> infobloxUpdate" "infobloxCreate \<noteq> infobloxDelete"
    "infobloxUpdate \<noteq> infobloxDelete" "infobloxUpdate \<noteq> infobloxCreate"
    by (simp_all add: infobloxCreate_def infobloxUpdate_def infobloxDelete_def)
  have nodel: "\<forall>c\<in>set (ApplyChanges_combined ord (h, ?ch)). Action c \<noteq> infobloxDelete"
    unfolding out using act ne by auto
  have c1: "length (filter (\<lambda>c. Action c = infobloxCreate) (ApplyChanges_combined ord (h, ?ch)))
         = (\<Sum>r\<leftarrow>X. length (Targets (h ! r)))"
    unfolding out by (simp add: all none ne len)
  have c2: "length (filter (\<lambda>c. Action c = infobloxUpdate) (ApplyChanges_combined ord (h, ?ch)))
         = (\<Sum>r\<leftarrow>X. length (Targets (h ! r)))"
    unfolding out by (simp add: all none ne len)
  from cd out nodel c1 c2 show ?thesis by blast
qed

text \<open>
  The claim as stated (no create, no update, no delete) fails for a batch of one A
  record with one target: the create batch is fanned out without diffing, and the
  endpoint left in \<^verbatim>\<open>UpdateNew\<close> is fanned out as an update.
\<close>

theorem CountDiff_same_batch_not_empty:
  "ApplyChanges_combined insertionOrder
     ([endpointA ''a.example.com'' [''1.1.1.1'']],
      \<lparr>Create = [0], UpdateOld = [0], UpdateNew = [0], Delete = []\<rparr>)
   = [\<lparr>Action = ''CREATE'', Endpoint = endpointA ''a.example.com'' [''1.1.1.1'']\<rparr>,
      \<lparr>Action = ''UPDATE'', Endpoint = endpointA ''a.example.com'' [''1.1.1.1'']\<rparr>]"
  by code_simp

theorem CountDiff_same_batch_witness:
  "CountDiff insertionOrder
     ([endpointA ''a.example.com'' [''1.1.1.1'']],
      \<lparr>Create = [0], UpdateOld = [0], UpdateNew = [0], Delete = []\<rparr>)
   = ([endpointA ''a.example.com'' [''1.1.1.1'']],
      \<lparr>Create = [0], UpdateOld = [0], UpdateNew = [0], Delete = []\<rparr>)
   \<and> length (filter (\<lambda>c. Action c = infobloxCreate)
        (ApplyChanges_combined insertionOrder
           ([endpointA ''a.example.com'' [''1.1.1.1'']],
            \<lparr>Create = [0], UpdateOld = [0], UpdateNew = [0], Delete = []\<rparr>))) = 1
   \<and> length (filter (\<lambda>c. Action c = infobloxUpdate)
        (ApplyChanges_combined insertionOrder
           ([endpointA ''a.example.com'' [''1.1.1.1'']],
            \<lparr>Create = [0], UpdateOld = [0], UpdateNew = [0], Delete = []\<rparr>))) = 1"
  using CountDiff_same_batch [OF rangeOrder_insertionOrder,
          of "[endpointA ''a.example.com'' [''1.1.1.1'']]" "[0]"]
  by (simp add: endpointA_def newIBChanges_def infobloxCreate_def infobloxUpdate_def)

section \<open>Target differ: colliding keys and empty target lists\<close>

lemma find_app:
  "find P (xs @ ys) = (case find P xs of Some x \<Rightarrow> Some x | None \<Rightarrow> find P ys)"
  by (induction xs) auto

lemma update_fold_find:
  "map_of (fold (\<lambda>v m. AList.update (key v) v m) eps m) k
     = (case find (\<lambda>v. key v = k) (rev eps) of Some v \<Rightarrow> Some v | None \<Rightarrow> map_of m k)"
proof (induction eps arbitrary: m)
  case Nil
  then show ?case by simp
next
  case (Cons v eps)
  show ?case
    by (simp add: Cons.IH update_conv' find_app split: option.splits)
qed

lemma endpointsToMap_find:
  "map_of (endpointsToMap h eps) k
     = find (\<lambda>v. DNSName (h ! v) @ ''_'' @ RecordType (h ! v) = k) (rev eps)"
  unfolding endpointsToMap_def
  using update_fold_find [of "\<lambda>v. DNSName (h ! v) @ ''_'' @ RecordType (h ! v)" eps "[]" k]
  by (simp split: option.splits)

text \<open>
  C9, as the code has it. \<^verbatim>\<open>CountDiff\<close> has no error result and checks nothing.
  The index of a batch maps a key to the last endpoint of the batch with that key: an
  endpoint followed by none of the same key is the one found, whatever precedes it. An
  empty target list gives the empty target map, and an endpoint without targets is
  fanned out to no change.
\<close>

theorem CountDiff_last_key_wins:
  "map_of (endpointsToMap h eps) k
     = find (\<lambda>v. DNSName (h ! v) @ ''_'' @ RecordType (h ! v) = k) (rev eps)
   \<and> ((\<forall>w\<in>set eps2. DNSName (h ! w) @ ''_'' @ RecordType (h ! w)
                        \<noteq> DNSName (h ! v) @ ''_'' @ RecordType (h ! v)) \<longrightarrow>
        map_of (endpointsToMap h (eps1 @ v # eps2)) (DNSName (h ! v) @ ''_'' @ RecordType (h ! v))
          = Some v)
   \<and> targetsToMap [] = []
   \<and> (Targets (h ! r) = [] \<longrightarrow> newIBChanges h action [r] = [])"
proof -
  have a: "map_of (endpointsToMap h eps) k
     = find (\<lambda>v. DNSName (h ! v) @ ''_'' @ RecordType (h ! v) = k) (rev eps)" for eps k
    by (rule endpointsToMap_find)
  have b: "(\<forall>w\<in>set eps2. DNSName (h ! w) @ ''_'' @ RecordType (h ! w)
                        \<noteq> DNSName (h ! v) @ ''_'' @ RecordType (h ! v)) \<longrightarrow>
        map_of (endpointsToMap h (eps1 @ v # eps2)) (DNSName (h ! v) @ ''_'' @ RecordType (h ! v))
          = Some v"
  proof
    assume n: "\<forall>w\<in>set eps2. DNSName (h ! w) @ ''_'' @ RecordType (h ! w)
                        \<noteq> DNSName (h ! v) @ ''_'' @ RecordType (h ! v)"
    then have "find (\<lambda>w. DNSName (h ! w) @ ''_'' @ RecordType (h ! w)
                           = DNSName (h ! v) @ ''_'' @ RecordType (h ! v)) (rev eps2) = None"
      by (simp add: find_None_iff)
    then show "map_of (endpointsToMap h (eps1 @ v # eps2)) (DNSName (h ! v) @ ''_'' @ RecordType (h ! v))
          = Some v"
      unfolding a by (simp add: find_app)
  qed
  have c: "targetsToMap [] = []" by (simp add: targetsToMap_def)
  have d: "Targets (h ! r) = [] \<longrightarrow> newIBChanges h action [r] = []"
    by (simp add: newIBChanges_def)
  from a b c d show ?thesis by blast
qed

text \<open>
  The claim as stated (a precondition error) fails. With two old endpoints of the same
  key the first one is dropped from the diff without notice: its target 1.1.1.1 is
  not deleted, and the submitted changes are returned as usual. With a new endpoint
  without targets the old target is deleted, again without error.
\<close>

theorem CountDiff_collision_not_rejected:
  "ApplyChanges_combined insertionOrder
     ([endpointA ''a.example.com'' [''1.1.1.1''],
       endpointA ''a.example.com'' [''2.2.2.2''],
       endpointA ''a.example.com'' [''2.2.2.2'']],
      \<lparr>Create = [], UpdateOld = [0, 1], UpdateNew = [2], Delete = []\<rparr>)
   = [\<lparr>Action = ''UPDATE'', Endpoint = endpointA ''a.example.com'' [''2.2.2.2'']\<rparr>]
   \<and> ApplyChanges_combined insertionOrder
     ([endpointA ''a.example.com'' [''1.1.1.1''],
       endpointA ''a.example.com'' []],
      \<lparr>Create = [], UpdateOld = [0], UpdateNew = [1], Delete = []\<rparr>)
   = [\<lparr>Action = ''DELETE'', Endpoint = endpointA ''a.example.com'' [''1.1.1.1'']\<rparr>]"
  by code_simp

theorem CountDiff_last_key_wins_witness:
  "map_of (endpointsToMap
             [endpointA ''a.example.com'' [''1.1.1.1''], endpointA ''a.example.com'' [''2.2.2.2'']]
             [0, 1]) ''a.example.com_A'' = Some 1"
  using CountDiff_last_key_wins [of
          "[endpointA ''a.example.com'' [''1.1.1.1''], endpointA ''a.example.com'' [''2.2.2.2'']]"
          "[0, 1]" "''a.example.com_A''" "[]" 1 "[0]" 0 "''UPDATE''"]
  by (simp add: endpointA_def RecordTypeA_def)

end
